theory Spec2Isabelle
  imports Complex_Main "HOL-Library.Product_Lexorder"
begin

section \<open>Floating-point values\<close>

text \<open>
  The notebook computes on NumPy arrays of IEEE-754 doubles. A double is modelled as a
  finite real or one of the three special values. Every arithmetic operation rounds its
  exact result with a rounding function, which is a parameter of the model (a field of
  the library environment below); \<open>round_binary64\<close> is round-to-nearest-even on
  binary64. Signed zeros are identified: a division by zero takes the zero as positive,
  as the zero of a standard deviation is.
\<close>

datatype fl = Fin real | PInf | NInf | NaN

type_synonym rounding = "real \<Rightarrow> fl"

fun fl_neg :: "fl \<Rightarrow> fl" where
  "fl_neg (Fin x) = Fin (- x)"
| "fl_neg PInf = NInf"
| "fl_neg NInf = PInf"
| "fl_neg NaN = NaN"

fun fl_add :: "rounding \<Rightarrow> fl \<Rightarrow> fl \<Rightarrow> fl" where
  "fl_add r NaN b = NaN"
| "fl_add r a NaN = NaN"
| "fl_add r (Fin x) (Fin y) = r (x + y)"
| "fl_add r PInf NInf = NaN"
| "fl_add r NInf PInf = NaN"
| "fl_add r PInf b = PInf"
| "fl_add r NInf b = NInf"
| "fl_add r a PInf = PInf"
| "fl_add r a NInf = NInf"

definition fl_sub :: "rounding \<Rightarrow> fl \<Rightarrow> fl \<Rightarrow> fl" where
  "fl_sub r a b = fl_add r a (fl_neg b)"

text \<open>The sign of a product or quotient with an infinite operand.\<close>

definition signed_inf :: "bool \<Rightarrow> fl" where
  "signed_inf positive = (if positive then PInf else NInf)"

fun fl_nonneg :: "fl \<Rightarrow> bool" where
  "fl_nonneg (Fin x) = (0 \<le> x)"
| "fl_nonneg PInf = True"
| "fl_nonneg NInf = False"
| "fl_nonneg NaN = False"

fun fl_mul :: "rounding \<Rightarrow> fl \<Rightarrow> fl \<Rightarrow> fl" where
  "fl_mul r NaN b = NaN"
| "fl_mul r a NaN = NaN"
| "fl_mul r (Fin x) (Fin y) = r (x * y)"
| "fl_mul r (Fin x) b = (if x = 0 then NaN else signed_inf ((0 < x) = fl_nonneg b))"
| "fl_mul r a (Fin y) = (if y = 0 then NaN else signed_inf (fl_nonneg a = (0 < y)))"
| "fl_mul r a b = signed_inf (fl_nonneg a = fl_nonneg b)"

fun fl_div :: "rounding \<Rightarrow> fl \<Rightarrow> fl \<Rightarrow> fl" where
  "fl_div r NaN b = NaN"
| "fl_div r a NaN = NaN"
| "fl_div r (Fin x) (Fin y) =
     (if y \<noteq> 0 then r (x / y)
      else if x = 0 then NaN
      else signed_inf (0 < x))"
| "fl_div r (Fin x) b = Fin 0"
| "fl_div r a (Fin y) = signed_inf (fl_nonneg a = (0 \<le> y))"
| "fl_div r a b = NaN"

text \<open>The comparisons of IEEE-754: every comparison with a NaN is false.\<close>

fun fl_le :: "fl \<Rightarrow> fl \<Rightarrow> bool" where
  "fl_le NaN b = False"
| "fl_le a NaN = False"
| "fl_le NInf b = True"
| "fl_le a PInf = True"
| "fl_le (Fin x) (Fin y) = (x \<le> y)"
| "fl_le a b = False"

definition fl_eq :: "fl \<Rightarrow> fl \<Rightarrow> bool" where
  "fl_eq a b = (a \<noteq> NaN \<and> a = b)"

definition fl_lt :: "fl \<Rightarrow> fl \<Rightarrow> bool" where
  "fl_lt a b = (fl_le a b \<and> \<not> fl_eq a b)"

text \<open>\<open>np.maximum\<close> of two values, and \<open>np.max\<close> of a non-empty array: a NaN
  propagates.\<close>

definition fl_maximum :: "fl \<Rightarrow> fl \<Rightarrow> fl" where
  "fl_maximum a b = (if a = NaN \<or> b = NaN then NaN else if fl_le a b then b else a)"


fun fl_max_list :: "fl \<Rightarrow> fl list \<Rightarrow> fl" where
  "fl_max_list a [] = a"
| "fl_max_list a (b # bs) = fl_max_list (fl_maximum a b) bs"

text \<open>\<open>np.abs\<close>, and \<open>np.sqrt\<close>, which IEEE-754 rounds correctly.\<close>

fun fl_abs :: "fl \<Rightarrow> fl" where
  "fl_abs (Fin x) = Fin \<bar>x\<bar>"
| "fl_abs PInf = PInf"
| "fl_abs NInf = PInf"
| "fl_abs NaN = NaN"

fun fl_sqrt :: "rounding \<Rightarrow> fl \<Rightarrow> fl" where
  "fl_sqrt r (Fin x) = (if x < 0 then NaN else r (sqrt x))"
| "fl_sqrt r PInf = PInf"
| "fl_sqrt r NInf = NaN"
| "fl_sqrt r NaN = NaN"

subsection \<open>Rounding to binary64\<close>

text \<open>
  Round-to-nearest, ties-to-even, on the binary64 format: 53 significant bits, the
  least exponent -1022 (below it the spacing stays that of the subnormal numbers), and
  overflow to an infinity from \<open>2 ^ 1024\<close> on.
\<close>

definition round_half_even :: "real \<Rightarrow> int" where
  "round_half_even x =
     (let f = \<lfloor>x\<rfloor>; d = x - of_int f
      in if d < 1 / 2 then f else if 1 / 2 < d then f + 1 else if even f then f else f + 1)"

definition round_binary64 :: rounding where
  "round_binary64 x =
     (if x = 0 then Fin 0
      else
        let e = max \<lfloor>log 2 \<bar>x\<bar>\<rfloor> (- 1022);
            u = 2 powr (of_int e - 52);
            m = of_int (round_half_even (\<bar>x\<bar> / u)) * u
        in if 2 powr 1024 \<le> m then signed_inf (0 < x) else Fin (sgn x * m))"

section \<open>Errors, arrays and the library environment\<close>

text \<open>The exceptions the modelled code or the libraries under it raise.\<close>

datatype err = ValueError | IndexError | TypeError | NameError | UnboundLocalError
  | OverflowError | LibraryError

definition err_bind :: "err + 'a \<Rightarrow> ('a \<Rightarrow> err + 'b) \<Rightarrow> err + 'b" where
  "err_bind m k = (case m of Inl e \<Rightarrow> Inl e | Inr v \<Rightarrow> k v)"

text \<open>
  A column array of shape \<open>(n, 1)\<close> (or a flat array of shape \<open>(n,)\<close>) is the list of
  its entries; an array of shape \<open>(n, D)\<close> is the list of its rows.
\<close>

type_synonym vec = "fl list"
type_synonym point = "fl list"

text \<open>
  The functions of NumPy, SciPy, scikit-learn and pyDOE that the notebook calls and
  that are not arithmetic. The global generator \<open>np.random\<close> is a state of type \<open>'g\<close>
  that every draw reads and advances; an estimator object is a state of type \<open>'m\<close>,
  a fitted \<open>StandardScaler\<close> one of type \<open>'s\<close>. \<open>qmc_sobol d\<close> is the unscrambled
  sampler \<open>qmc.Sobol(d, scramble=False)\<close>, given by its method \<open>random_base2\<close>.
\<close>

datatype kernel = Matern fl | RBF fl | RationalQuadratic fl | WhiteKernel fl
  | KernelSum kernel kernel

record ('g, 'm, 's) lib =
  rnd :: rounding
  norm_cdf_fin :: "real \<Rightarrow> fl"
  norm_pdf_fin :: "real \<Rightarrow> fl"
  np_sin_fin :: "real \<Rightarrow> fl"
  np_exp_fin :: "real \<Rightarrow> fl"
  random_seed :: "int \<Rightarrow> err + 'g"
  random_uniform :: "fl \<Rightarrow> fl \<Rightarrow> int \<Rightarrow> int \<Rightarrow> 'g \<Rightarrow> (err + point list) \<times> 'g"
  random_normal :: "vec \<Rightarrow> vec \<Rightarrow> 'g \<Rightarrow> (err + vec) \<times> 'g"
  random_rand :: "nat \<Rightarrow> 'g \<Rightarrow> vec \<times> 'g"
  pydoe_lhs :: "int \<Rightarrow> int \<Rightarrow> 'g \<Rightarrow> (err + point list) \<times> 'g"
  qmc_sobol :: "int \<Rightarrow> err + (nat \<Rightarrow> err + point list)"
  np_argpartition :: "vec \<Rightarrow> nat \<Rightarrow> nat list"
  gaussian_process_regressor :: "kernel option \<Rightarrow> 'm"
  random_forest_regressor :: "nat \<Rightarrow> 'm"
  mlp_regressor :: "nat list \<Rightarrow> nat \<Rightarrow> fl \<Rightarrow> 'm"
  model_fit :: "'m \<Rightarrow> point list \<Rightarrow> vec \<Rightarrow> 'g \<Rightarrow> err option \<times> 'm \<times> 'g"
  model_predict :: "'m \<Rightarrow> point list \<Rightarrow> err + vec"
  model_predict_std :: "'m \<Rightarrow> point list \<Rightarrow> err + vec \<times> vec"
  model_tree_predicts :: "'m \<Rightarrow> point list \<Rightarrow> err + vec list"
  scaler_fit_transform :: "point list \<Rightarrow> err + 's \<times> point list"
  scaler_transform :: "'s \<Rightarrow> point list \<Rightarrow> err + point list"

text \<open>
  \<open>scipy.stats.norm.cdf\<close> and \<open>norm.pdf\<close>, \<open>np.sin\<close> and \<open>np.exp\<close> at the
  special values; at a finite argument they return what the library computes there.
\<close>

fun fl_sin :: "('g, 'm, 's) lib \<Rightarrow> fl \<Rightarrow> fl" where
  "fl_sin env (Fin x) = np_sin_fin env x"
| "fl_sin env a = NaN"

fun fl_exp :: "('g, 'm, 's) lib \<Rightarrow> fl \<Rightarrow> fl" where
  "fl_exp env (Fin x) = np_exp_fin env x"
| "fl_exp env PInf = PInf"
| "fl_exp env NInf = Fin 0"
| "fl_exp env NaN = NaN"

fun norm_cdf :: "('g, 'm, 's) lib \<Rightarrow> fl \<Rightarrow> fl" where
  "norm_cdf env (Fin x) = norm_cdf_fin env x"
| "norm_cdf env PInf = Fin 1"
| "norm_cdf env NInf = Fin 0"
| "norm_cdf env NaN = NaN"

fun norm_pdf :: "('g, 'm, 's) lib \<Rightarrow> fl \<Rightarrow> fl" where
  "norm_pdf env (Fin x) = norm_pdf_fin env x"
| "norm_pdf env PInf = Fin 0"
| "norm_pdf env NInf = Fin 0"
| "norm_pdf env NaN = NaN"

text \<open>
  NumPy broadcasting of a binary operation over two column arrays: equal lengths
  combine entry by entry, a column of one entry is stretched, anything else raises.
\<close>

definition broadcast2 :: "('a \<Rightarrow> 'b \<Rightarrow> 'c) \<Rightarrow> 'a list \<Rightarrow> 'b list \<Rightarrow> err + 'c list" where
  "broadcast2 f xs ys =
     (if length xs = length ys then Inr (map2 f xs ys)
      else if length xs = 1 then Inr (map (f (hd xs)) ys)
      else if length ys = 1 then Inr (map (\<lambda>x. f x (hd ys)) xs)
      else Inl ValueError)"

text \<open>\<open>np.max(a)\<close>: raises on an empty array.\<close>

definition np_max :: "vec \<Rightarrow> err + fl" where
  "np_max a = (case a of [] \<Rightarrow> Inl ValueError | x # xs \<Rightarrow> Inr (fl_max_list x xs))"

text \<open>\<open>a[mask] = v\<close> with a boolean mask, which must have the shape of \<open>a\<close>.\<close>

definition mask_assign :: "'a list \<Rightarrow> bool list \<Rightarrow> 'a \<Rightarrow> err + 'a list" where
  "mask_assign a msk v =
     (if length msk = length a then Inr (map2 (\<lambda>x m. if m then v else x) a msk)
      else Inl IndexError)"

section \<open>The acquisition evaluator\<close>

definition compute_acquisition ::
  "('g, 'm, 's) lib \<Rightarrow> string \<Rightarrow> vec \<Rightarrow> vec \<Rightarrow> vec \<Rightarrow> fl \<Rightarrow> fl \<Rightarrow> 'g \<Rightarrow> (err + vec) \<times> 'g"
where
  "compute_acquisition env acquisition_function mu sigma Y_sample kappa xi g =
     (if acquisition_function = ''UCB'' then
        (broadcast2 (fl_add (rnd env)) mu (map (fl_mul (rnd env) kappa) sigma), g)
      else if acquisition_function = ''Expected Improvement'' then
        (err_bind (np_max Y_sample) (\<lambda>mu_sample_opt.
           let imp = map (\<lambda>m. fl_sub (rnd env) (fl_sub (rnd env) m mu_sample_opt) xi) mu in
           err_bind (broadcast2 (fl_div (rnd env)) imp sigma) (\<lambda>Z.
           err_bind (broadcast2 (fl_mul (rnd env)) imp (map (norm_cdf env) Z)) (\<lambda>t1.
           err_bind (broadcast2 (fl_mul (rnd env)) sigma (map (norm_pdf env) Z)) (\<lambda>t2.
           err_bind (broadcast2 (fl_add (rnd env)) t1 t2) (\<lambda>ei.
           mask_assign ei (map (\<lambda>s. fl_eq s (Fin 0)) sigma) (Fin 0)))))), g)
      else if acquisition_function = ''Probability of Improvement'' then
        (err_bind (np_max Y_sample) (\<lambda>mu_sample_opt.
           let num = map (\<lambda>m. fl_sub (rnd env) (fl_sub (rnd env) m mu_sample_opt) xi) mu in
           err_bind (broadcast2 (fl_div (rnd env)) num sigma) (\<lambda>Z.
           Inr (map (norm_cdf env) Z))), g)
      else if acquisition_function = ''Thompson Sampling'' then
        random_normal env mu sigma g
      else if acquisition_function = ''Random'' then
        (case random_rand env (length mu) g of (samples, g') \<Rightarrow> (Inr samples, g'))
      else
        (broadcast2 (fl_add (rnd env)) mu (map (fl_mul (rnd env) kappa) sigma), g))"

subsection \<open>The evaluator on arrays held by reference\<close>






section \<open>Surrogate models and their uncertainty\<close>

definition select_surrogate_model ::
  "('g, 'm, 's) lib \<Rightarrow> string \<Rightarrow> string \<Rightarrow> fl \<Rightarrow> fl \<Rightarrow> 'm"
where
  "select_surrogate_model env model_name kernel_choice length_scale noise_level =
     (if model_name = ''Gaussian Process'' then
        gaussian_process_regressor env (Some
          (if kernel_choice = ''Matern'' then
             KernelSum (Matern length_scale) (WhiteKernel noise_level)
           else if kernel_choice = ''RBF'' then
             KernelSum (RBF length_scale) (WhiteKernel noise_level)
           else if kernel_choice = ''RationalQuadratic'' then
             KernelSum (RationalQuadratic length_scale) (WhiteKernel noise_level)
           else
             KernelSum (Matern length_scale) (WhiteKernel noise_level)))
      else if model_name = ''Random Forest'' then
        random_forest_regressor env 100
      else if model_name = ''Neural Network'' then
        mlp_regressor env [50, 50] 1000 (rnd env (1 / 10000))
      else
        gaussian_process_regressor env None)"

text \<open>
  NumPy's summation of a contiguous run of doubles (\<open>pairwise_sum\<close> of its inner
  loops): fewer than 8 entries are added from left to right; up to 128 entries are
  added into 8 interleaved accumulators, block of 8 by block of 8, the accumulators
  are added in pairs and what is left of the run is added last; a longer run is cut
  in two at a multiple of 8 and the sums of the halves are added. The sum starts from
  0.0, and adding the first entry to it returns that entry.
\<close>

fun acc8 :: "rounding \<Rightarrow> vec \<Rightarrow> vec \<Rightarrow> vec \<times> vec" where
  "acc8 r acc a =
     (if length a < 8 then (acc, a)
      else acc8 r (map2 (fl_add r) acc (take 8 a)) (drop 8 a))"

declare acc8.simps [simp del]

definition sum8 :: "rounding \<Rightarrow> vec \<Rightarrow> fl" where
  "sum8 r acc =
     fl_add r (fl_add r (fl_add r (acc ! 0) (acc ! 1)) (fl_add r (acc ! 2) (acc ! 3)))
              (fl_add r (fl_add r (acc ! 4) (acc ! 5)) (fl_add r (acc ! 6) (acc ! 7)))"

function pairwise_sum :: "rounding \<Rightarrow> vec \<Rightarrow> fl" where
  "pairwise_sum r a =
     (if length a < 8 then
        (case a of [] \<Rightarrow> Fin 0 | x # xs \<Rightarrow> foldl (fl_add r) x xs)
      else if length a \<le> 128 then
        (case acc8 r (take 8 a) (drop 8 a) of (acc, rest) \<Rightarrow> foldl (fl_add r) (sum8 r acc) rest)
      else
        (let n2 = length a div 2 - (length a div 2) mod 8
         in fl_add r (pairwise_sum r (take n2 a)) (pairwise_sum r (drop n2 a))))"
  by pat_completeness auto

termination pairwise_sum
  by (relation "measure (\<lambda>(r, a). length a)") auto

declare pairwise_sum.simps [simp del]

text \<open>
  \<open>np.sum(a, axis=0)\<close> of a list of rows. With two or more columns the rows are
  added one after the other, starting from the first; a single column is one
  contiguous run, which is summed pairwise. A ragged list of rows is no array and
  raises; the sum of no rows at all is left to \<open>np_mean_axis0\<close> and \<open>np_std_axis0\<close>.
\<close>

definition np_sum_axis0 :: "rounding \<Rightarrow> vec list \<Rightarrow> err + vec" where
  "np_sum_axis0 r rows =
     (case rows of
        [] \<Rightarrow> Inr []
      | row # rest \<Rightarrow>
          if \<forall>x \<in> set rest. length x = length row
          then Inr (if length row = 1 then [pairwise_sum r (map hd rows)]
                    else foldl (map2 (fl_add r)) row rest)
          else Inl ValueError)"

text \<open>\<open>np.mean(a, axis=0)\<close>: the sum divided by the number of rows; of an empty
  list it is a single NaN.\<close>

definition np_mean_axis0 :: "rounding \<Rightarrow> vec list \<Rightarrow> err + vec" where
  "np_mean_axis0 r rows =
     (if rows = [] then Inr [NaN]
      else err_bind (np_sum_axis0 r rows) (\<lambda>total.
        Inr (map (\<lambda>t. fl_div r t (Fin (real (length rows)))) total)))"

text \<open>
  \<open>np.std(a, axis=0)\<close>, as NumPy computes it: the mean, the deviations from it,
  their squares, the mean of the squares, the square root.
\<close>

definition np_std_axis0 :: "rounding \<Rightarrow> vec list \<Rightarrow> err + vec" where
  "np_std_axis0 r rows =
     (if rows = [] then Inr [NaN]
      else err_bind (np_mean_axis0 r rows) (\<lambda>arrmean.
        let x = map (\<lambda>row. map2 (fl_sub r) row arrmean) rows;
            x2 = map (map (\<lambda>d. fl_mul r d d)) x
        in err_bind (np_sum_axis0 r x2) (\<lambda>total.
             Inr (map (\<lambda>t. fl_sqrt r (fl_div r t (Fin (real (length rows))))) total))))"

text \<open>The loop \<open>for _ in range(T): preds.append(model.predict(X))\<close>.\<close>

fun forward_passes ::
  "('g, 'm, 's) lib \<Rightarrow> 'm \<Rightarrow> point list \<Rightarrow> nat \<Rightarrow> vec list \<Rightarrow> err + vec list"
where
  "forward_passes env model X 0 preds = Inr preds"
| "forward_passes env model X (Suc t) preds =
     err_bind (model_predict env model X) (\<lambda>p. forward_passes env model X t (preds @ [p]))"

definition estimate_uncertainty ::
  "('g, 'm, 's) lib \<Rightarrow> 'm \<Rightarrow> point list \<Rightarrow> string \<Rightarrow> err + vec \<times> vec"
where
  "estimate_uncertainty env model X model_name =
     (if model_name = ''Gaussian Process'' then
        model_predict_std env model X
      else if model_name = ''Random Forest'' then
        err_bind (model_tree_predicts env model X) (\<lambda>all_preds.
        err_bind (np_mean_axis0 (rnd env) all_preds) (\<lambda>mu.
        err_bind (np_std_axis0 (rnd env) all_preds) (\<lambda>sigma.
        Inr (mu, sigma))))
      else if model_name = ''Neural Network'' then
        err_bind (forward_passes env model X 10 []) (\<lambda>preds.
        err_bind (np_mean_axis0 (rnd env) preds) (\<lambda>mu.
        err_bind (np_std_axis0 (rnd env) preds) (\<lambda>sigma.
        Inr (mu, sigma))))
      else
        model_predict_std env model X)"

section \<open>The sample initializer\<close>

text \<open>
  \<open>int(np.log2(n))\<close>: the integer part of the binary logarithm of a positive count
  (for the counts below \<open>2 ^ 48\<close>, where the rounded logarithm and the exact one have
  the same integer part); \<open>np.log2\<close> of 0 is minus infinity and of a negative number
  NaN, and \<open>int\<close> raises on both.
\<close>

fun ilog2 :: "nat \<Rightarrow> nat" where
  "ilog2 n = (if n < 2 then 0 else Suc (ilog2 (n div 2)))"

declare ilog2.simps [simp del]

definition int_log2 :: "int \<Rightarrow> err + nat" where
  "int_log2 n =
     (if n = 0 then Inl OverflowError
      else if n < 0 then Inl ValueError
      else Inr (ilog2 (nat n)))"

text \<open>\<open>X_sample * 4 - 2\<close>, entry by entry.\<close>

definition scale_to_domain :: "rounding \<Rightarrow> point list \<Rightarrow> point list" where
  "scale_to_domain r X = map (map (\<lambda>v. fl_sub r (fl_mul r v (Fin 4)) (Fin 2))) X"

definition initialize_samples ::
  "('g, 'm, 's) lib \<Rightarrow> int \<Rightarrow> int \<Rightarrow> string \<Rightarrow> 'g \<Rightarrow> (err + point list) \<times> 'g"
where
  "initialize_samples env initial_samples dimensions sampling_method g =
     (if sampling_method = ''Random'' then
        random_uniform env (Fin (- 2)) (Fin 2) initial_samples dimensions g
      else if sampling_method = ''Latin Hypercube'' then
        (case pydoe_lhs env dimensions initial_samples g of
           (X_sample, g') \<Rightarrow>
             (err_bind X_sample (\<lambda>X. Inr (scale_to_domain (rnd env) X)), g'))
      else if sampling_method = ''Sobol'' then
        (err_bind (qmc_sobol env dimensions) (\<lambda>sampler_random_base2.
         err_bind (int_log2 initial_samples) (\<lambda>m.
         err_bind (sampler_random_base2 m) (\<lambda>X.
         Inr (scale_to_domain (rnd env) X)))), g)
      else
        random_uniform env (Fin (- 2)) (Fin 2) initial_samples dimensions g)"

section \<open>The synthetic fitness landscape\<close>

text \<open>
  \<open>generate_fitness_landscape\<close> returns the closure \<open>fitness_function\<close>; every entry
  of its result depends on one row of \<open>X\<close> only, so the model computes row by row;
  the result is the column \<open>fitness.reshape(-1, 1)\<close>, one row of one entry per point.
  \<open>X[:, i]\<close> raises when the rows have no column \<open>i\<close>.
\<close>

definition fitness_row ::
  "('g, 'm, 's) lib \<Rightarrow> int \<Rightarrow> fl \<Rightarrow> fl \<Rightarrow> fl \<Rightarrow> point \<Rightarrow> err + fl"
where
  "fitness_row env dimensions epistasis ruggedness sparsity p =
     (if length p < nat dimensions then Inl IndexError
      else
        let r = rnd env;
            prod_p = foldl (fl_mul r) (Fin 1) p;
            fitness = foldl (\<lambda>acc i.
                let xi = p ! i;
                    base = fl_sin env (fl_mul r (Fin 5) xi);
                    epi = fl_mul r epistasis (fl_sin env (fl_mul r (Fin 5) prod_p));
                    rug = fl_mul r ruggedness (fl_sin env (fl_mul r (Fin 10) xi))
                in fl_add r acc (fl_add r (fl_add r base epi) rug))
              (Fin 0) [0..<nat dimensions];
            fitness = (if fl_lt (fl_abs fitness) sparsity then Fin 0 else fitness);
            sum_sq = foldl (fl_add r) (Fin 0) (map (\<lambda>v. fl_mul r v v) p)
        in Inr (fl_mul r fitness (fl_exp env (fl_neg sum_sq))))"

fun collect_err :: "(err + 'a) list \<Rightarrow> err + 'a list" where
  "collect_err [] = Inr []"
| "collect_err (x # xs) = err_bind x (\<lambda>v. err_bind (collect_err xs) (\<lambda>vs. Inr (v # vs)))"

definition generate_fitness_landscape ::
  "('g, 'm, 's) lib \<Rightarrow> int \<Rightarrow> fl \<Rightarrow> fl \<Rightarrow> fl \<Rightarrow> point list \<Rightarrow> err + vec list"
where
  "generate_fitness_landscape env dimensions epistasis ruggedness sparsity X =
     err_bind (collect_err (map (fitness_row env dimensions epistasis ruggedness sparsity) X))
       (\<lambda>fitness. Inr (map (\<lambda>v. [v]) fitness))"

section \<open>The optimization controller\<close>

text \<open>
  The local variables of \<open>bayesian_optimization\<close> together with the objects it
  mutates: the estimator, the scaler, the global generator and the progress bar. A
  local that is not bound yet is \<open>None\<close>. The outputs \<open>Y_sample\<close> and \<open>Y_next\<close> are
  two-dimensional arrays, as the entry point and the objective hand them over: lists
  of rows.
\<close>

record ('g, 'm, 's) bo_state =
  bo_X_sample :: "point list"
  bo_Y_sample :: "vec list"
  bo_X_sample_scaled :: "point list option"
  bo_mu :: "vec option"
  bo_sigma :: "vec option"
  bo_acquisition :: "vec option"
  bo_idx_next :: "nat list option"
  bo_X_next :: "point list option"
  bo_Y_next :: "vec list option"
  bo_model :: 'm
  bo_scaler :: "'s option"
  bo_rng :: 'g
  bo_progress :: nat

text \<open>A statement either raises, leaving the state as it is at the raise, or
  completes; \<open>and_then\<close> runs the next statement after one that completed, and
  \<open>run_block\<close> a sequence of statements.\<close>

definition and_then :: "err option \<times> 'a \<Rightarrow> ('a \<Rightarrow> err option \<times> 'a) \<Rightarrow> err option \<times> 'a" where
  "and_then r k = (case r of (None, st) \<Rightarrow> k st | (Some e, st) \<Rightarrow> (Some e, st))"

fun run_block :: "('a \<Rightarrow> err option \<times> 'a) list \<Rightarrow> 'a \<Rightarrow> err option \<times> 'a" where
  "run_block [] st = (None, st)"
| "run_block (stmt # stmts) st = and_then (stmt st) (run_block stmts)"

text \<open>\<open>for _ in range(n): body\<close>.\<close>

fun for_range :: "nat \<Rightarrow> ('a \<Rightarrow> err option \<times> 'a) \<Rightarrow> 'a \<Rightarrow> err option \<times> 'a" where
  "for_range 0 body st = (None, st)"
| "for_range (Suc n) body st = and_then (body st) (for_range n body)"

text \<open>\<open>np.argpartition(a, kth)\<close> checks \<open>kth\<close> against the length and counts a
  negative \<open>kth\<close> from the end; \<open>xs[:b]\<close>; \<open>X[idx]\<close>; \<open>np.vstack((A, B))\<close>, which
  raises when the rows of \<open>A\<close> and of \<open>B\<close> differ in length.\<close>

definition argpartition_kth :: "('g, 'm, 's) lib \<Rightarrow> vec \<Rightarrow> int \<Rightarrow> err + nat list" where
  "argpartition_kth env a kth =
     (let n = int (length a)
      in if kth < - n \<or> n \<le> kth then Inl ValueError
         else Inr (np_argpartition env a (nat (if kth < 0 then kth + n else kth))))"

definition py_take :: "int \<Rightarrow> 'a list \<Rightarrow> 'a list" where
  "py_take b xs = (if 0 \<le> b then take (nat b) xs else take (nat (int (length xs) + b)) xs)"

definition take_rows :: "'a list \<Rightarrow> nat list \<Rightarrow> err + 'a list" where
  "take_rows X idx =
     (if \<forall>i \<in> set idx. i < length X then Inr (map (\<lambda>i. X ! i) idx) else Inl IndexError)"

definition np_vstack :: "'a list list \<Rightarrow> 'a list list \<Rightarrow> err + 'a list list" where
  "np_vstack A B =
     (if \<forall>a \<in> set A. \<forall>b \<in> set B. length a = length b then Inr (A @ B) else Inl ValueError)"

text \<open>
  The statements of the loop body, one definition for each: the fit (on
  \<open>Y_sample.ravel()\<close>), the prediction over the grid, the scoring (\<open>np.max(Y_sample)\<close>
  inside it runs over all entries of \<open>Y_sample\<close>), the selection, the two assignments
  of the batch, the two \<open>np.vstack\<close> assignments, the refit of the scaler and the
  progress bar.
\<close>

definition bo_fit ::
  "('g, 'm, 's) lib \<Rightarrow> string \<Rightarrow> ('g, 'm, 's) bo_state \<Rightarrow> err option \<times> ('g, 'm, 's) bo_state"
where
  "bo_fit env model_name st =
     (case (if model_name = ''Neural Network''
            then (case bo_X_sample_scaled st of
                    None \<Rightarrow> Inl UnboundLocalError | Some Xs \<Rightarrow> Inr Xs)
            else Inr (bo_X_sample st)) of
        Inl e \<Rightarrow> (Some e, st)
      | Inr X \<Rightarrow>
          (case model_fit env (bo_model st) X (concat (bo_Y_sample st)) (bo_rng st) of
             (e, m', g') \<Rightarrow> (e, st\<lparr>bo_model := m', bo_rng := g'\<rparr>)))"

definition bo_predict ::
  "('g, 'm, 's) lib \<Rightarrow> point list option \<Rightarrow> string \<Rightarrow> ('g, 'm, 's) bo_state
   \<Rightarrow> err option \<times> ('g, 'm, 's) bo_state"
where
  "bo_predict env X_grid model_name st =
     (case X_grid of
        None \<Rightarrow> (Some NameError, st)
      | Some grid \<Rightarrow>
          (case (if model_name = ''Neural Network''
                 then err_bind (case bo_scaler st of
                                  None \<Rightarrow> Inl LibraryError
                                | Some sc \<Rightarrow> scaler_transform env sc grid)
                        (\<lambda>X_grid_scaled.
                           estimate_uncertainty env (bo_model st) X_grid_scaled model_name)
                 else estimate_uncertainty env (bo_model st) grid model_name) of
             Inl e \<Rightarrow> (Some e, st)
           | Inr (mu, sigma) \<Rightarrow> (None, st\<lparr>bo_mu := Some mu, bo_sigma := Some sigma\<rparr>)))"

definition bo_score ::
  "('g, 'm, 's) lib \<Rightarrow> string \<Rightarrow> fl \<Rightarrow> fl \<Rightarrow> ('g, 'm, 's) bo_state
   \<Rightarrow> err option \<times> ('g, 'm, 's) bo_state"
where
  "bo_score env acquisition_function kappa xi st =
     (case (bo_mu st, bo_sigma st) of
        (Some mu, Some sigma) \<Rightarrow>
          (case compute_acquisition env acquisition_function mu sigma (concat (bo_Y_sample st))
                  kappa xi (bo_rng st) of
             (Inl e, g') \<Rightarrow> (Some e, st\<lparr>bo_rng := g'\<rparr>)
           | (Inr acquisition, g') \<Rightarrow>
               (None, st\<lparr>bo_acquisition := Some acquisition, bo_rng := g'\<rparr>))
      | _ \<Rightarrow> (Some UnboundLocalError, st))"

definition bo_select ::
  "('g, 'm, 's) lib \<Rightarrow> int \<Rightarrow> ('g, 'm, 's) bo_state \<Rightarrow> err option \<times> ('g, 'm, 's) bo_state"
where
  "bo_select env batch_size st =
     (case bo_acquisition st of
        None \<Rightarrow> (Some UnboundLocalError, st)
      | Some acquisition \<Rightarrow>
          (case argpartition_kth env (map fl_neg acquisition) (batch_size - 1) of
             Inl e \<Rightarrow> (Some e, st)
           | Inr order \<Rightarrow> (None, st\<lparr>bo_idx_next := Some (py_take batch_size order)\<rparr>)))"

text \<open>\<open>X_next = X_grid[idx_next]\<close>.\<close>

definition bo_next_X ::
  "point list option \<Rightarrow> ('g, 'm, 's) bo_state \<Rightarrow> err option \<times> ('g, 'm, 's) bo_state"
where
  "bo_next_X X_grid st =
     (case (X_grid, bo_idx_next st) of
        (None, _) \<Rightarrow> (Some NameError, st)
      | (_, None) \<Rightarrow> (Some UnboundLocalError, st)
      | (Some grid, Some idx_next) \<Rightarrow>
          (case take_rows grid idx_next of
             Inl e \<Rightarrow> (Some e, st)
           | Inr X_next \<Rightarrow> (None, st\<lparr>bo_X_next := Some X_next\<rparr>)))"

text \<open>\<open>Y_next = fitness_function(X_next)\<close>.\<close>

definition bo_next_Y ::
  "(point list \<Rightarrow> err + vec list) \<Rightarrow> ('g, 'm, 's) bo_state
   \<Rightarrow> err option \<times> ('g, 'm, 's) bo_state"
where
  "bo_next_Y fitness_function st =
     (case bo_X_next st of
        None \<Rightarrow> (Some UnboundLocalError, st)
      | Some X_next \<Rightarrow>
          (case fitness_function X_next of
             Inl e \<Rightarrow> (Some e, st)
           | Inr Y_next \<Rightarrow> (None, st\<lparr>bo_Y_next := Some Y_next\<rparr>)))"

text \<open>\<open>X_sample = np.vstack((X_sample, X_next))\<close>.\<close>

definition bo_stack_X :: "('g, 'm, 's) bo_state \<Rightarrow> err option \<times> ('g, 'm, 's) bo_state" where
  "bo_stack_X st =
     (case bo_X_next st of
        None \<Rightarrow> (Some UnboundLocalError, st)
      | Some X_next \<Rightarrow>
          (case np_vstack (bo_X_sample st) X_next of
             Inl e \<Rightarrow> (Some e, st)
           | Inr X_sample \<Rightarrow> (None, st\<lparr>bo_X_sample := X_sample\<rparr>)))"

text \<open>\<open>Y_sample = np.vstack((Y_sample, Y_next))\<close>.\<close>

definition bo_stack_Y :: "('g, 'm, 's) bo_state \<Rightarrow> err option \<times> ('g, 'm, 's) bo_state" where
  "bo_stack_Y st =
     (case bo_Y_next st of
        None \<Rightarrow> (Some UnboundLocalError, st)
      | Some Y_next \<Rightarrow>
          (case np_vstack (bo_Y_sample st) Y_next of
             Inl e \<Rightarrow> (Some e, st)
           | Inr Y_sample \<Rightarrow> (None, st\<lparr>bo_Y_sample := Y_sample\<rparr>)))"

text \<open>\<open>if model_name == 'Neural Network': X_sample_scaled = scaler.fit_transform(X_sample)\<close>.\<close>

definition bo_rescale ::
  "('g, 'm, 's) lib \<Rightarrow> string \<Rightarrow> ('g, 'm, 's) bo_state \<Rightarrow> err option \<times> ('g, 'm, 's) bo_state"
where
  "bo_rescale env model_name st =
     (if model_name = ''Neural Network''
      then (case scaler_fit_transform env (bo_X_sample st) of
              Inl e \<Rightarrow> (Some e, st)
            | Inr (sc, Xs) \<Rightarrow> (None, st\<lparr>bo_scaler := Some sc, bo_X_sample_scaled := Some Xs\<rparr>))
      else (None, st))"

definition bo_progress_tick :: "('g, 'm, 's) bo_state \<Rightarrow> err option \<times> ('g, 'm, 's) bo_state" where
  "bo_progress_tick st = (None, st\<lparr>bo_progress := bo_progress st + 1\<rparr>)"

text \<open>The loop body is its ten statements in their order.\<close>

definition bo_body ::
  "('g, 'm, 's) lib \<Rightarrow> (point list \<Rightarrow> err + vec list) \<Rightarrow> point list option \<Rightarrow> string \<Rightarrow> string
   \<Rightarrow> int \<Rightarrow> fl \<Rightarrow> fl \<Rightarrow> (('g, 'm, 's) bo_state \<Rightarrow> err option \<times> ('g, 'm, 's) bo_state) list"
where
  "bo_body env fitness_function X_grid model_name acquisition_function batch_size kappa xi =
     [bo_fit env model_name,
      bo_predict env X_grid model_name,
      bo_score env acquisition_function kappa xi,
      bo_select env batch_size,
      bo_next_X X_grid,
      bo_next_Y fitness_function,
      bo_stack_X,
      bo_stack_Y,
      bo_rescale env model_name,
      bo_progress_tick]"

definition bo_iteration ::
  "('g, 'm, 's) lib \<Rightarrow> (point list \<Rightarrow> err + vec list) \<Rightarrow> point list option \<Rightarrow> string \<Rightarrow> string
   \<Rightarrow> int \<Rightarrow> fl \<Rightarrow> fl \<Rightarrow> ('g, 'm, 's) bo_state \<Rightarrow> err option \<times> ('g, 'm, 's) bo_state"
where
  "bo_iteration env fitness_function X_grid model_name acquisition_function batch_size kappa xi =
     run_block (bo_body env fitness_function X_grid model_name acquisition_function
                  batch_size kappa xi)"

text \<open>The statements before the loop: a fresh scaler, fitted at once for the neural
  network, and a progress bar at 0.\<close>

definition bo_start ::
  "('g, 'm, 's) lib \<Rightarrow> point list \<Rightarrow> vec list \<Rightarrow> 'm \<Rightarrow> string \<Rightarrow> 'g
   \<Rightarrow> err option \<times> ('g, 'm, 's) bo_state"
where
  "bo_start env X_sample Y_sample model model_name g =
     (let st = \<lparr>bo_X_sample = X_sample, bo_Y_sample = Y_sample, bo_X_sample_scaled = None,
                bo_mu = None, bo_sigma = None, bo_acquisition = None, bo_idx_next = None,
                bo_X_next = None, bo_Y_next = None,
                bo_model = model, bo_scaler = None, bo_rng = g, bo_progress = 0\<rparr>
      in if model_name = ''Neural Network''
         then (case scaler_fit_transform env X_sample of
                 Inl e \<Rightarrow> (Some e, st)
               | Inr (sc, Xs) \<Rightarrow>
                   (None, st\<lparr>bo_scaler := Some sc, bo_X_sample_scaled := Some Xs\<rparr>))
         else (None, st))"

text \<open>The \<open>return\<close> statement reads \<open>mu\<close>, \<open>sigma\<close>, \<open>acquisition\<close> and \<open>idx_next\<close>,
  which only the loop body binds.\<close>

definition bo_return ::
  "('g, 'm, 's) bo_state \<Rightarrow> err + point list \<times> vec list \<times> vec \<times> vec \<times> vec \<times> nat list"
where
  "bo_return st =
     (case (bo_mu st, bo_sigma st, bo_acquisition st, bo_idx_next st) of
        (Some mu, Some sigma, Some acquisition, Some idx_next) \<Rightarrow>
          Inr (bo_X_sample st, bo_Y_sample st, mu, sigma, acquisition, idx_next)
      | _ \<Rightarrow> Inl UnboundLocalError)"

text \<open>
  The states the run goes through: \<open>bo_run \<dots> k\<close> is the run up to the end of
  iteration \<open>k\<close>, and \<open>bo_upto \<dots> k j\<close> the run up to the point after the first \<open>j\<close>
  statements of the iteration that follows; the whole function runs \<open>iterations\<close>
  iterations and returns.
\<close>

definition bo_run ::
  "('g, 'm, 's) lib \<Rightarrow> (point list \<Rightarrow> err + vec list) \<Rightarrow> point list option \<Rightarrow> point list
   \<Rightarrow> vec list \<Rightarrow> 'm \<Rightarrow> string \<Rightarrow> string \<Rightarrow> int \<Rightarrow> fl \<Rightarrow> fl \<Rightarrow> 'g \<Rightarrow> nat
   \<Rightarrow> err option \<times> ('g, 'm, 's) bo_state"
where
  "bo_run env fitness_function X_grid X_sample Y_sample model model_name acquisition_function
      batch_size kappa xi g k =
     and_then (bo_start env X_sample Y_sample model model_name g)
       (for_range k (bo_iteration env fitness_function X_grid model_name acquisition_function
          batch_size kappa xi))"

definition bo_upto ::
  "('g, 'm, 's) lib \<Rightarrow> (point list \<Rightarrow> err + vec list) \<Rightarrow> point list option \<Rightarrow> point list
   \<Rightarrow> vec list \<Rightarrow> 'm \<Rightarrow> string \<Rightarrow> string \<Rightarrow> int \<Rightarrow> fl \<Rightarrow> fl \<Rightarrow> 'g \<Rightarrow> nat \<Rightarrow> nat
   \<Rightarrow> err option \<times> ('g, 'm, 's) bo_state"
where
  "bo_upto env fitness_function X_grid X_sample Y_sample model model_name acquisition_function
      batch_size kappa xi g k j =
     and_then (bo_run env fitness_function X_grid X_sample Y_sample model model_name
                 acquisition_function batch_size kappa xi g k)
       (run_block (take j (bo_body env fitness_function X_grid model_name acquisition_function
          batch_size kappa xi)))"

definition bayesian_optimization ::
  "('g, 'm, 's) lib \<Rightarrow> (point list \<Rightarrow> err + vec list) \<Rightarrow> point list option \<Rightarrow> point list
   \<Rightarrow> vec list \<Rightarrow> 'm \<Rightarrow> string \<Rightarrow> string \<Rightarrow> int \<Rightarrow> int \<Rightarrow> fl \<Rightarrow> fl \<Rightarrow> 'g
   \<Rightarrow> (err + point list \<times> vec list \<times> vec \<times> vec \<times> vec \<times> nat list) \<times> ('g, 'm, 's) bo_state"
where
  "bayesian_optimization env fitness_function X_grid X_sample Y_sample model model_name
      acquisition_function iterations batch_size kappa xi g =
     (case bo_run env fitness_function X_grid X_sample Y_sample model model_name
             acquisition_function batch_size kappa xi g (nat iterations) of
        (Some e, st) \<Rightarrow> (Inl e, st)
      | (None, st) \<Rightarrow> (bo_return st, st))"

section \<open>The interactive entry point\<close>

text \<open>
  The module-level state a run reads and writes: the global generator and the globals
  \<open>x\<close>, \<open>X_grid\<close> and \<open>Y_grid_true\<close> (\<open>None\<close> before their first assignment).
\<close>

record 'g world =
  w_rng :: 'g
  w_x :: "vec option"
  w_X_grid :: "point list option"
  w_Y_grid_true :: "vec list option"

text \<open>The arguments the widgets pass to \<open>interactive_bayesian_optimization\<close>.\<close>

record config =
  c_acquisition_function :: string
  c_surrogate_model :: string
  c_kernel_choice :: string
  c_kappa :: fl
  c_xi :: fl
  c_epistasis :: fl
  c_ruggedness :: fl
  c_sparsity :: fl
  c_iterations :: int
  c_batch_size :: int
  c_dimensions :: int
  c_initial_samples :: int
  c_sampling_method :: string
  c_length_scale :: fl
  c_noise_level :: fl
  c_random_state :: int
  c_color_scheme :: string

text \<open>\<open>np.linspace(start, stop, num)\<close> for \<open>num\<close> of 2 or more: the step, its
  multiples shifted by the start, and the last point set to the stop.\<close>

definition np_linspace :: "rounding \<Rightarrow> fl \<Rightarrow> fl \<Rightarrow> nat \<Rightarrow> vec" where
  "np_linspace r start stop num =
     (let step = fl_div r (fl_sub r stop start) (Fin (real (num - 1)))
      in (map (\<lambda>i. fl_add r (fl_mul r (Fin (real i)) step) start) [0..<num])
           [num - 1 := stop])"

text \<open>
  The candidate grid: for one dimension the column \<open>x.reshape(-1, 1)\<close>, otherwise the
  flattened \<open>np.meshgrid(*[x]*dimensions)\<close>, whose default indexing exchanges the first
  two axes; without any axis \<open>np.vstack\<close> has nothing to stack and raises.
\<close>

fun swap_first_two :: "'a list \<Rightarrow> 'a list" where
  "swap_first_two (a # b # rest) = b # a # rest"
| "swap_first_two xs = xs"

definition make_grid :: "vec \<Rightarrow> int \<Rightarrow> err + point list" where
  "make_grid x dimensions =
     (if dimensions = 1 then Inr (map (\<lambda>v. [v]) x)
      else if dimensions \<le> 0 then Inl ValueError
      else Inr (map swap_first_two (product_lists (replicate (nat dimensions) x))))"

text \<open>
  The function up to its call of \<open>bayesian_optimization\<close>: it seeds the generator,
  builds the grid, draws and evaluates the initial samples and creates the estimator.
\<close>

definition ibo_setup ::
  "('g, 'm, 's) lib \<Rightarrow> config \<Rightarrow> 'g world
   \<Rightarrow> (err + point list \<times> vec list \<times> 'm) \<times> 'g world"
where
  "ibo_setup env c w =
     (case random_seed env (c_random_state c) of
        Inl e \<Rightarrow> (Inl e, w)
      | Inr g0 \<Rightarrow>
          (let fitness_function = generate_fitness_landscape env (c_dimensions c)
                 (c_epistasis c) (c_ruggedness c) (c_sparsity c);
               x = np_linspace (rnd env) (Fin (- 2)) (Fin 2) 50;
               w1 = w\<lparr>w_rng := g0, w_x := Some x\<rparr>
           in case make_grid x (c_dimensions c) of
                Inl e \<Rightarrow> (Inl e, w1)
              | Inr X_grid \<Rightarrow>
                  (let w2 = w1\<lparr>w_X_grid := Some X_grid\<rparr>
                   in case fitness_function X_grid of
                        Inl e \<Rightarrow> (Inl e, w2)
                      | Inr Y_grid_true \<Rightarrow>
                          (let w3 = w2\<lparr>w_Y_grid_true := Some Y_grid_true\<rparr>
                           in case initialize_samples env (c_initial_samples c)
                                     (c_dimensions c) (c_sampling_method c) g0 of
                                (Inl e, g1) \<Rightarrow> (Inl e, w3\<lparr>w_rng := g1\<rparr>)
                              | (Inr X_sample, g1) \<Rightarrow>
                                  (case fitness_function X_sample of
                                     Inl e \<Rightarrow> (Inl e, w3\<lparr>w_rng := g1\<rparr>)
                                   | Inr Y_sample \<Rightarrow>
                                       (Inr (X_sample, Y_sample,
                                          select_surrogate_model env (c_surrogate_model c)
                                            (c_kernel_choice c) (c_length_scale c)
                                            (c_noise_level c)),
                                        w3\<lparr>w_rng := g1\<rparr>))))))"

text \<open>
  The states of the controller inside a run of the entry point, up to the end of
  iteration \<open>k\<close>; and the entry point itself, whose result is what it hands to
  \<open>plot_results\<close> (the rendering is not modelled).
\<close>

definition ibo_run ::
  "('g, 'm, 's) lib \<Rightarrow> config \<Rightarrow> 'g world \<Rightarrow> nat
   \<Rightarrow> err + err option \<times> ('g, 'm, 's) bo_state"
where
  "ibo_run env c w k =
     (case ibo_setup env c w of
        (Inl e, w') \<Rightarrow> Inl e
      | (Inr (X_sample, Y_sample, model), w') \<Rightarrow>
          Inr (bo_run env
                 (generate_fitness_landscape env (c_dimensions c) (c_epistasis c)
                    (c_ruggedness c) (c_sparsity c))
                 (w_X_grid w') X_sample Y_sample model (c_surrogate_model c)
                 (c_acquisition_function c) (c_batch_size c) (c_kappa c) (c_xi c)
                 (w_rng w') k))"

definition interactive_bayesian_optimization ::
  "('g, 'm, 's) lib \<Rightarrow> config \<Rightarrow> 'g world
   \<Rightarrow> (err + point list \<times> vec list \<times> vec \<times> vec \<times> vec \<times> nat list) \<times> 'g world"
where
  "interactive_bayesian_optimization env c w =
     (case ibo_setup env c w of
        (Inl e, w') \<Rightarrow> (Inl e, w')
      | (Inr (X_sample, Y_sample, model), w') \<Rightarrow>
          (case bayesian_optimization env
                  (generate_fitness_landscape env (c_dimensions c) (c_epistasis c)
                     (c_ruggedness c) (c_sparsity c))
                  (w_X_grid w') X_sample Y_sample model (c_surrogate_model c)
                  (c_acquisition_function c) (c_iterations c) (c_batch_size c)
                  (c_kappa c) (c_xi c) (w_rng w') of
             (result, st) \<Rightarrow> (result, w'\<lparr>w_rng := bo_rng st\<rparr>)))"

section \<open>What the libraries promise\<close>

text \<open>
  The order \<open>np.sort\<close> and \<open>np.argpartition\<close> use on doubles: by value, every NaN
  last.
\<close>

definition sort_le :: "fl \<Rightarrow> fl \<Rightarrow> bool" where
  "sort_le a b = (b = NaN \<or> fl_le a b)"

text \<open>
  \<open>np.argpartition(a, kth)\<close> returns the indices of \<open>a\<close> in an order that puts the
  entry of rank \<open>kth\<close> at position \<open>kth\<close>, no greater entry before it and no smaller one
  behind it. The order inside the two parts is left open.
\<close>

definition is_argpartition :: "vec \<Rightarrow> nat \<Rightarrow> nat list \<Rightarrow> bool" where
  "is_argpartition a kth order =
     (distinct order \<and> set order = {0..<length a} \<and>
      list_all (\<lambda>i. sort_le (a ! (order ! i)) (a ! (order ! kth))) [0..<kth] \<and>
      list_all (\<lambda>i. sort_le (a ! (order ! kth)) (a ! (order ! i))) [Suc kth..<length a])"

definition argpartition_contract :: "('g, 'm, 's) lib \<Rightarrow> bool" where
  "argpartition_contract env =
     (\<forall>a kth. kth < length a \<longrightarrow> is_argpartition a kth (np_argpartition env a kth))"

text \<open>The objective returns one output for each input row, in the order of the
  rows, as its interface asks.\<close>

definition one_output_per_input :: "(point list \<Rightarrow> err + vec list) \<Rightarrow> bool" where
  "one_output_per_input fitness_function =
     (\<forall>X Y. fitness_function X = Inr Y \<longrightarrow> length Y = length X)"

text \<open>\<open>qmc.Sobol.random_base2(m)\<close> returns \<open>2 ^ m\<close> points.\<close>

definition sobol_contract :: "('g, 'm, 's) lib \<Rightarrow> bool" where
  "sobol_contract env =
     (\<forall>d sampler m X. qmc_sobol env d = Inr sampler \<and> sampler m = Inr X \<longrightarrow> length X = 2 ^ m)"

section \<open>A small instance of the environment\<close>

text \<open>
  An instance on which the definitions can be run: exact arithmetic, rational
  stand-ins for the sine and the exponential, a generator that is a counter, an estimator that remembers the outputs it was fitted to and predicts
  the first coordinate with uncertainty 1, a full stable sort for \<open>np.argpartition\<close>,
  and the dyadic points \<open>j / 2 ^ m\<close> for the Sobol sequence.
\<close>

definition demo_draw :: "nat \<Rightarrow> fl" where
  "demo_draw k = Fin (1 / real (k + 2))"

definition first_coord :: "point \<Rightarrow> fl" where
  "first_coord p = (case p of [] \<Rightarrow> Fin 0 | v # _ \<Rightarrow> v)"

fun fl_key :: "fl \<Rightarrow> nat \<times> real" where
  "fl_key NInf = (0, 0)"
| "fl_key (Fin x) = (1, x)"
| "fl_key PInf = (2, 0)"
| "fl_key NaN = (3, 0)"

definition argsort :: "vec \<Rightarrow> nat list" where
  "argsort a = sort_key (\<lambda>i. fl_key (a ! i)) [0..<length a]"

definition demo_lib :: "(nat, vec, unit) lib" where
  "demo_lib =
     \<lparr>rnd = Fin,
      norm_cdf_fin = (\<lambda>x. Fin (if x < 0 then 0 else 1)),
      norm_pdf_fin = (\<lambda>x. Fin 0),
      np_sin_fin = (\<lambda>x. Fin (x / (1 + x * x))),
      np_exp_fin = (\<lambda>x. Fin (1 / (1 + x * x))),
      random_seed = (\<lambda>n. if 0 \<le> n then Inr (nat n) else Inl ValueError),
      random_uniform = (\<lambda>lo hi n d g.
         if n < 0 \<or> d < 0 then (Inl ValueError, g)
         else (Inr (replicate (nat n) (replicate (nat d)
                 (fl_add Fin lo (fl_mul Fin (fl_sub Fin hi lo) (demo_draw g))))), Suc g)),
      random_normal = (\<lambda>mu sigma g.
         (broadcast2 (\<lambda>m s. fl_add Fin m (fl_mul Fin s (demo_draw g))) mu sigma, Suc g)),
      random_rand = (\<lambda>n g. (map (\<lambda>j. demo_draw (g + j)) [0..<n], g + n)),
      pydoe_lhs = (\<lambda>d n g.
         if n < 0 \<or> d < 0 then (Inl ValueError, g)
         else (Inr (replicate (nat n) (replicate (nat d) (demo_draw g))), Suc g)),
      qmc_sobol = (\<lambda>d.
         if d < 1 then Inl ValueError
         else Inr (\<lambda>m. Inr (map (\<lambda>j. replicate (nat d) (Fin (real j / 2 ^ m))) [0..<2 ^ m]))),
      np_argpartition = (\<lambda>a kth. argsort a),
      gaussian_process_regressor = (\<lambda>k. []),
      random_forest_regressor = (\<lambda>n. []),
      mlp_regressor = (\<lambda>layers max_iter alpha. []),
      model_fit = (\<lambda>m X Y g. (None, Y, g)),
      model_predict = (\<lambda>m X. Inr (map first_coord X)),
      model_predict_std = (\<lambda>m X. Inr (map first_coord X, replicate (length X) (Fin 1))),
      model_tree_predicts = (\<lambda>m X. Inr [map first_coord X, map first_coord X]),
      scaler_fit_transform = (\<lambda>X. Inr ((), X)),
      scaler_transform = (\<lambda>sc X. Inr X)\<rparr>"

text \<open>An objective for the instance: the first coordinate of each point.\<close>

definition demo_objective :: "point list \<Rightarrow> err + vec list" where
  "demo_objective X = Inr (map (\<lambda>p. [first_coord p]) X)"

text \<open>
  A second selection for the instance: the selection by repeated minimum that NumPy's
  scalar code (\<open>dumb_select\<close> of its \<open>npysort\<close>) runs for a \<open>kth\<close> below 3. For every
  position up to \<open>kth\<close>, the first smallest entry from that position on is exchanged
  with the entry at the position; an entry is smaller by \<open>sort_lt\<close>, the order of the
  doubles with every NaN last. The instance \<open>selection_lib\<close> selects this way for
  every \<open>kth\<close>. Builds of NumPy that select with vector instructions may order equal
  entries differently; the contract of \<open>np.argpartition\<close> leaves that open.
\<close>

definition sort_lt :: "fl \<Rightarrow> fl \<Rightarrow> bool" where
  "sort_lt a b = (fl_lt a b \<or> (b = NaN \<and> a \<noteq> NaN))"

definition first_min :: "vec \<Rightarrow> nat list \<Rightarrow> nat \<Rightarrow> nat" where
  "first_min v tosort i =
     foldl (\<lambda>minidx k. if sort_lt (v ! (tosort ! k)) (v ! (tosort ! minidx)) then k else minidx)
       i [Suc i..<length tosort]"

definition dumb_select :: "vec \<Rightarrow> nat \<Rightarrow> nat list" where
  "dumb_select v kth =
     foldl (\<lambda>tosort i. let minidx = first_min v tosort i
                        in tosort[i := tosort ! minidx, minidx := tosort ! i])
       [0..<length v] [0..<Suc kth]"

definition selection_lib :: "(nat, vec, unit) lib" where
  "selection_lib = demo_lib\<lparr>np_argpartition := dumb_select\<rparr>"

text \<open>
  The instance with binary64 arithmetic and an estimator that predicts the double
  nearest to 0.1 at every point.
\<close>

definition binary64_lib :: "(nat, vec, unit) lib" where
  "binary64_lib = demo_lib
     \<lparr>rnd := round_binary64,
      model_predict := (\<lambda>m X. Inr (map (\<lambda>p. Fin (3602879701896397 / 36028797018963968)) X))\<rparr>"

section \<open>Notions used in the statements and proofs\<close>

definition is_fin :: "fl \<Rightarrow> bool" where
  "is_fin a = (case a of Fin x \<Rightarrow> True | _ \<Rightarrow> False)"

text \<open>A rounding function is monotone when a greater exact result never rounds to a
  smaller double, as every rounding mode of IEEE-754 is; such a function never yields
  a NaN.\<close>

definition rnd_monotone :: "rounding \<Rightarrow> bool" where
  "rnd_monotone r = (\<forall>x y. x \<le> y \<longrightarrow> fl_le (r x) (r y))"

text \<open>
  The sample set between the statements of an iteration that began with \<open>n\<close> inputs
  and \<open>n\<close> outputs, after \<open>i\<close> of its statements: from the selection on the batch
  has \<open>B\<close> indices, then \<open>B\<close> points, then \<open>B\<close> outputs; the inputs hold them after
  the seventh statement and the outputs after the eighth. And the sample set after a
  raise: as many outputs as inputs, or the second \<open>np.vstack\<close> raised and the inputs
  are \<open>B\<close> ahead.
\<close>

definition at_stage :: "int \<Rightarrow> nat \<Rightarrow> nat \<Rightarrow> ('g, 'm, 's) bo_state \<Rightarrow> bool" where
  "at_stage B n i st =
     (length (bo_X_sample st) = n + (if 7 \<le> i then nat B else 0)
    \<and> length (bo_Y_sample st) = n + (if 8 \<le> i then nat B else 0)
    \<and> (4 \<le> i \<longrightarrow> (\<exists>idx. bo_idx_next st = Some idx \<and> length idx = nat B))
    \<and> (5 \<le> i \<longrightarrow> (\<exists>X_next. bo_X_next st = Some X_next \<and> length X_next = nat B))
    \<and> (6 \<le> i \<longrightarrow> (\<exists>Y_next. bo_Y_next st = Some Y_next \<and> length Y_next = nat B)))"

definition after_raise :: "int \<Rightarrow> err \<Rightarrow> ('g, 'm, 's) bo_state \<Rightarrow> bool" where
  "after_raise B e st =
     (length (bo_Y_sample st) = length (bo_X_sample st)
    \<or> (length (bo_X_sample st) = length (bo_Y_sample st) + nat B \<and> e = ValueError
       \<and> bo_stack_Y st = (Some ValueError, st)))"

text \<open>The selection by repeated minimum after \<open>m\<close> positions: the order is a
  permutation of the indices and each of the first \<open>m\<close> entries is no greater than all
  entries behind it.\<close>

definition selected_upto :: "vec \<Rightarrow> nat \<Rightarrow> nat list \<Rightarrow> bool" where
  "selected_upto v m t =
     (length t = length v \<and> distinct t \<and> set t = {0..<length v}
    \<and> (\<forall>p q. p < m \<and> p < q \<and> q < length v \<longrightarrow> sort_le (v ! (t ! p)) (v ! (t ! q))))"





text \<open>The exponent and the rounded magnitude inside \<open>round_binary64\<close>.\<close>

definition b64_exponent :: "real \<Rightarrow> int" where
  "b64_exponent x = max \<lfloor>log 2 \<bar>x\<bar>\<rfloor> (- 1022)"

definition b64_magnitude :: "real \<Rightarrow> real" where
  "b64_magnitude x =
     of_int (round_half_even (\<bar>x\<bar> / 2 powr (of_int (b64_exponent x) - 52)))
       * 2 powr (of_int (b64_exponent x) - 52)"

section \<open>Properties of the acquisition evaluator\<close>

lemma broadcast2_same: "length xs = length ys \<Longrightarrow> broadcast2 f xs ys = Inr (map2 f xs ys)"
  by (simp add: broadcast2_def)

text \<open>
  Claim C2. Under the expected-improvement strategy, with a mean vector and an
  uncertainty vector of one entry per candidate and a non-empty history of observed
  outputs, the call returns a score vector, and the score of every candidate whose
  uncertainty is exactly 0 is exactly 0.
\<close>

theorem expected_improvement_zero_sigma:
  assumes "Y_sample \<noteq> []" and "length mu = length sigma"
    and "i < length sigma" and "sigma ! i = Fin 0"
  shows "\<exists>ei. fst (compute_acquisition env ''Expected Improvement'' mu sigma Y_sample kappa xi g) = Inr ei
           \<and> length ei = length sigma \<and> ei ! i = Fin 0"
  using assms
  by (cases Y_sample)
     (simp_all add: compute_acquisition_def np_max_def err_bind_def Let_def broadcast2_same
        mask_assign_def fl_eq_def)

theorem expected_improvement_zero_sigma_witness:
  "[Fin 1] \<noteq> [] \<and> length [Fin 1, Fin 2] = length [Fin 0, Fin 1]
   \<and> (0::nat) < length [Fin 0, Fin 1] \<and> [Fin 0, Fin 1] ! 0 = Fin 0
   \<and> (\<exists>ei. fst (compute_acquisition demo_lib ''Expected Improvement'' [Fin 1, Fin 2]
                [Fin 0, Fin 1] [Fin 1] (Fin 2) (Fin 0) (0::nat)) = Inr ei
          \<and> length ei = length [Fin 0, Fin 1] \<and> ei ! 0 = Fin 0)"
  using expected_improvement_zero_sigma[of "[Fin 1]" "[Fin 1, Fin 2]" "[Fin 0, Fin 1]" 0
          demo_lib "Fin 2" "Fin 0" 0]
  by simp

lemma fl_le_NaN_left [simp]: "\<not> fl_le NaN b"
  by simp

lemma fl_le_NaN_right [simp]: "\<not> fl_le a NaN"
  by (cases a) simp_all

lemma fl_le_refl: "a \<noteq> NaN \<Longrightarrow> fl_le a a"
  by (cases a) simp_all

lemma fl_le_trans: "fl_le a b \<Longrightarrow> fl_le b c \<Longrightarrow> fl_le a c"
  by (cases a; cases b; cases c) simp_all

lemma rnd_monotone_not_NaN: "rnd_monotone r \<Longrightarrow> r x \<noteq> NaN"
  unfolding rnd_monotone_def by (metis fl_le_NaN_left order_refl)

lemma fl_add_fin_mono:
  assumes "rnd_monotone r" and "fl_le a b"
  shows "fl_le (fl_add r (Fin m) a) (fl_add r (Fin m) b)"
proof (cases a)
  case (Fin x)
  show ?thesis
  proof (cases b)
    case (Fin y)
    with \<open>a = Fin x\<close> assms show ?thesis by (simp add: rnd_monotone_def)
  next
    case PInf
    with \<open>a = Fin x\<close> rnd_monotone_not_NaN[OF assms(1), of "m + x"] show ?thesis
      by (cases "r (m + x)") simp_all
  qed (use \<open>a = Fin x\<close> assms in simp_all)
next
  case NInf
  show ?thesis
  proof (cases b)
    case (Fin y)
    with NInf rnd_monotone_not_NaN[OF assms(1), of "m + y"] show ?thesis
      by (cases "r (m + y)") simp_all
  qed (use NInf assms in simp_all)
next
  case PInf
  with assms show ?thesis by (cases b) simp_all
next
  case NaN
  with assms show ?thesis by simp
qed

lemma ucb_entry_mono:
  assumes "rnd_monotone r" and "0 \<le> k" and "s1 \<le> s2"
  shows "fl_le (fl_add r (Fin m) (fl_mul r (Fin k) (Fin s1)))
               (fl_add r (Fin m) (fl_mul r (Fin k) (Fin s2)))"
proof -
  have "k * s1 \<le> k * s2" using assms by (simp add: mult_left_mono)
  then have "fl_le (r (k * s1)) (r (k * s2))"
    using assms(1) by (simp add: rnd_monotone_def)
  then show ?thesis
    using fl_add_fin_mono[OF assms(1)] by simp
qed

lemma is_fin_conv: "is_fin a \<longleftrightarrow> (\<exists>x. a = Fin x)"
  by (cases a) (simp_all add: is_fin_def)

text \<open>
  Claim C8. Under the upper-confidence-bound strategy, for a finite mean vector, a
  finite exploration weight \<open>kappa \<ge> 0\<close> and two finite uncertainty vectors with
  \<open>sigma1 \<le> sigma2\<close> entry by entry, both calls return and every score
  \<open>mu + kappa * sigma1\<close> is at most the score \<open>mu + kappa * sigma2\<close> of the same
  candidate, whatever monotone rounding the arithmetic uses.
\<close>

theorem ucb_monotone_in_sigma:
  assumes "rnd_monotone (rnd env)" and "0 \<le> k"
    and "list_all is_fin mu" and "list_all is_fin sigma1" and "list_all is_fin sigma2"
    and "list_all2 fl_le sigma1 sigma2" and "length mu = length sigma1"
  shows "\<exists>a1 a2.
           fst (compute_acquisition env ''UCB'' mu sigma1 Y_sample (Fin k) xi g) = Inr a1
         \<and> fst (compute_acquisition env ''UCB'' mu sigma2 Y_sample (Fin k) xi g) = Inr a2
         \<and> list_all2 fl_le a1 a2"
proof -
  let ?f = "\<lambda>s. map2 (fl_add (rnd env)) mu (map (fl_mul (rnd env) (Fin k)) s)"
  have len: "length sigma2 = length sigma1"
    using assms(6) by (simp add: list_all2_lengthD)
  have "list_all2 fl_le (?f sigma1) (?f sigma2)"
  proof (rule list_all2_all_nthI)
    show "length (?f sigma1) = length (?f sigma2)" using len assms(7) by simp
  next
    fix n assume "n < length (?f sigma1)"
    then have n: "n < length mu" "n < length sigma1" "n < length sigma2"
      using len assms(7) by simp_all
    obtain m where m: "mu ! n = Fin m"
      using assms(3) n(1) by (auto simp: list_all_length is_fin_conv)
    obtain s1 where s1: "sigma1 ! n = Fin s1"
      using assms(4) n(2) by (auto simp: list_all_length is_fin_conv)
    obtain s2 where s2: "sigma2 ! n = Fin s2"
      using assms(5) n(3) by (auto simp: list_all_length is_fin_conv)
    have "fl_le (sigma1 ! n) (sigma2 ! n)"
      using assms(6) n(2) by (simp add: list_all2_nthD)
    then have "s1 \<le> s2" using s1 s2 by simp
    then show "fl_le (?f sigma1 ! n) (?f sigma2 ! n)"
      using n m s1 s2 ucb_entry_mono[OF assms(1,2)] by simp
  qed
  then show ?thesis
    using len assms(7) by (simp add: compute_acquisition_def broadcast2_same)
qed

text \<open>
  Claim C1. The probability-of-improvement branch has no guard for an uncertainty of
  0: where the mean equals the best observed output and the margin is 0, the quotient
  is 0 / 0 and the returned score is a NaN, while the expected-improvement branch
  returns 0 there.
\<close>

theorem probability_of_improvement_unguarded:
  assumes "rnd env 0 = Fin 0"
  shows "fst (compute_acquisition env ''Probability of Improvement'' [Fin m] [Fin 0] [Fin m]
                kappa (Fin 0) g) = Inr [NaN]"
  using assms
  by (simp add: compute_acquisition_def np_max_def err_bind_def broadcast2_same fl_sub_def)

section \<open>Properties of the sample initializer\<close>

lemma ilog2_bounds: "0 < n \<Longrightarrow> 2 ^ ilog2 n \<le> n \<and> n < 2 ^ Suc (ilog2 n)"
proof (induction n rule: ilog2.induct)
  case (1 n)
  show ?case
  proof (cases "n < 2")
    case True
    with "1.prems" have "n = 1" by simp
    then show ?thesis by (simp add: ilog2.simps)
  next
    case False
    then have "0 < n div 2" by simp
    with "1.IH" False have ih: "2 ^ ilog2 (n div 2) \<le> n div 2" "n div 2 < 2 ^ Suc (ilog2 (n div 2))"
      by simp_all
    have eq: "ilog2 n = Suc (ilog2 (n div 2))" using False by (subst ilog2.simps) simp
    from ih show ?thesis unfolding eq by (simp; linarith)
  qed
qed

lemma ilog2_power: "ilog2 (2 ^ m) = m"
proof (induction m)
  case 0
  show ?case by (simp add: ilog2.simps)
next
  case (Suc m)
  have "\<not> (2::nat) ^ Suc m < 2" by (simp add: not_less)
  then show ?case using Suc by (subst ilog2.simps) simp
qed

lemma length_scale_to_domain [simp]: "length (scale_to_domain r X) = length X"
  by (simp add: scale_to_domain_def)

text \<open>
  Claim C7. For the Sobol strategy and a positive count that is not a power of two,
  a call that returns has returned \<open>2 ^ m\<close> points for the integer part \<open>m\<close> of the
  binary logarithm of the count, which is fewer points than were asked for; nothing is
  rounded up and nothing is rejected.
\<close>

theorem sobol_returns_fewer_points:
  assumes "sobol_contract env" and "0 < initial_samples"
    and "fst (initialize_samples env initial_samples dimensions ''Sobol'' g) = Inr X_sample"
  shows "length X_sample = 2 ^ ilog2 (nat initial_samples)
       \<and> ((\<forall>m. initial_samples \<noteq> 2 ^ m) \<longrightarrow> int (length X_sample) < initial_samples)"
proof -
  let ?m = "ilog2 (nat initial_samples)"
  from assms(3) obtain sampler X
    where s: "qmc_sobol env dimensions = Inr sampler" and X: "sampler ?m = Inr X"
      and XS: "X_sample = scale_to_domain (rnd env) X"
    using assms(2)
    by (auto simp: initialize_samples_def err_bind_def int_log2_def split: sum.splits)
  from assms(1) s X have "length X = 2 ^ ?m"
    unfolding sobol_contract_def by blast
  then have len: "length X_sample = 2 ^ ?m" using XS by simp
  have b: "2 ^ ?m \<le> nat initial_samples"
    using ilog2_bounds[of "nat initial_samples"] assms(2) by simp
  have "int (length X_sample) < initial_samples" if "\<forall>m. initial_samples \<noteq> 2 ^ m"
  proof -
    from that have "initial_samples \<noteq> 2 ^ ?m" by blast
    then have "nat initial_samples \<noteq> 2 ^ ?m" using assms(2)
      by (metis int_nat_eq of_nat_numeral of_nat_power order_less_imp_le)
    with b len show ?thesis by linarith
  qed
  with len show ?thesis by blast
qed

lemma demo_sobol: "sobol_contract demo_lib"
  by (auto simp: sobol_contract_def demo_lib_def split: if_splits)

theorem sobol_returns_fewer_points_witness:
  "sobol_contract demo_lib \<and> (0::int) < 5
   \<and> fst (initialize_samples demo_lib 5 1 ''Sobol'' (0::nat))
       = Inr [[Fin (- 2)], [Fin (- 1)], [Fin 0], [Fin 1]]
   \<and> (\<forall>m. (5::int) \<noteq> 2 ^ m)
   \<and> int (length [[Fin (- 2)], [Fin (- 1)], [Fin 0], [Fin (1::real)]]) < 5"
proof -
  have run: "fst (initialize_samples demo_lib 5 1 ''Sobol'' (0::nat))
       = Inr [[Fin (- 2)], [Fin (- 1)], [Fin 0], [Fin 1]]"
    by (simp add: initialize_samples_def demo_lib_def err_bind_def int_log2_def ilog2.simps
        scale_to_domain_def fl_sub_def upt_rec)
  have np: "\<forall>m. (5::int) \<noteq> 2 ^ m"
  proof
    fix m :: nat
    show "(5::int) \<noteq> 2 ^ m"
    proof (cases m)
      case 0
      then show ?thesis by simp
    next
      case (Suc k)
      then have "even ((2::int) ^ m)" by simp
      moreover have "odd (5::int)" by simp
      ultimately show ?thesis by metis
    qed
  qed
  have pos: "(0::int) < 5" by simp
  have "int (length [[Fin (- 2)], [Fin (- 1)], [Fin 0], [Fin (1::real)]]) < 5"
    using sobol_returns_fewer_points[OF demo_sobol pos run] np by blast
  with demo_sobol run np show ?thesis by simp
qed

section \<open>Properties of the optimization controller\<close>

lemma and_then_None:
  "and_then r k = (None, st') \<longleftrightarrow> (\<exists>st1. r = (None, st1) \<and> k st1 = (None, st'))"
  by (cases r) (auto simp: and_then_def split: option.splits)

lemma and_then_cases:
  assumes "and_then r k = (e, st')"
  obtains (stop) err where "r = (Some err, st')" "e = Some err"
        | (go) st1 where "r = (None, st1)" "k st1 = (e, st')"
  using assms by (cases r) (auto simp: and_then_def split: option.splits)

lemma and_then_assoc: "and_then (and_then r f) h = and_then r (\<lambda>st. and_then (f st) h)"
  by (cases r) (auto simp: and_then_def split: option.splits)

lemma and_then_done: "and_then r (\<lambda>st. (None, st)) = r"
  by (cases r) (auto simp: and_then_def split: option.splits)

lemma for_range_snoc: "for_range (Suc n) body st = and_then (for_range n body st) body"
proof (induction n arbitrary: st)
  case 0
  show ?case by (cases "body st") (auto simp: and_then_def split: option.splits)
next
  case (Suc n)
  show ?case
  proof (cases "body st")
    case (Pair e st1)
    show ?thesis
    proof (cases e)
      case None
      with Pair Suc[of st1] show ?thesis by (simp add: and_then_def)
    next
      case (Some err)
      with Pair show ?thesis by (simp add: and_then_def)
    qed
  qed
qed

lemma and_then_start: "and_then (None, st) k = k st"
  by (simp add: and_then_def)

lemma run_block_Nil_fun: "run_block [] = (\<lambda>st. (None, st))"
  by (rule ext) simp

lemma run_block_Cons_fun:
  "run_block (stmt # stmts) = (\<lambda>st. and_then (stmt st) (run_block stmts))"
  by (rule ext) simp

lemma run_block_append:
  "run_block (xs @ ys) st = and_then (run_block xs st) (run_block ys)"
proof (induction xs arbitrary: st)
  case Nil
  show ?case by (simp add: and_then_def)
next
  case (Cons x xs)
  have "run_block (xs @ ys) = (\<lambda>s. and_then (run_block xs s) (run_block ys))"
    using Cons by (intro ext)
  then show ?case by (simp add: and_then_assoc)
qed

lemma run_block_snoc:
  assumes "j < length ss"
  shows "run_block (take (Suc j) ss) st = and_then (run_block (take j ss) st) (ss ! j)"
proof -
  have "run_block [ss ! j] = ss ! j"
    by (rule ext) (simp add: and_then_done[unfolded] and_then_def split: prod.splits option.splits)
  then show ?thesis
    using assms by (simp add: take_Suc_conv_app_nth run_block_append)
qed

lemma run_block_raised:
  assumes "run_block (take j ss) st = (Some x, st')"
  shows "run_block ss st = (Some x, st')"
proof -
  have "run_block (take j ss @ drop j ss) st = (Some x, st')"
    unfolding run_block_append using assms by (simp add: and_then_def)
  then show ?thesis by simp
qed

text \<open>A run of statements goes through the stages \<open>I 0\<close>, \<open>I 1\<close>, \<dots> when every
  statement that completes leads from its stage to the next, and ends in \<open>R\<close> when one
  raises.\<close>

lemma run_block_stages:
  assumes step: "\<And>i st e st'. i < length ss \<Longrightarrow> I i st \<Longrightarrow> (ss ! i) st = (e, st')
                  \<Longrightarrow> (case e of None \<Rightarrow> I (Suc i) st' | Some x \<Rightarrow> R x st')"
    and "I 0 st" and "j \<le> length ss" and "run_block (take j ss) st = (e, st')"
  shows "case e of None \<Rightarrow> I j st' | Some x \<Rightarrow> R x st'"
  using assms(3,4)
proof (induction j arbitrary: e st')
  case 0
  with assms(2) show ?case by simp
next
  case (Suc j)
  then have j: "j < length ss" by simp
  from Suc.prems(2) have "and_then (run_block (take j ss) st) (ss ! j) = (e, st')"
    by (simp only: run_block_snoc[OF j])
  then show ?case
  proof (cases rule: and_then_cases)
    case (stop err)
    with Suc.IH[of "Some err" st'] j show ?thesis by simp
  next
    case (go st1)
    with Suc.IH[of None st1] j have "I j st1" by simp
    from step[OF j this go(2)] show ?thesis .
  qed
qed

text \<open>What each statement of the loop body changes.\<close>

lemma bo_fit_fields:
  assumes "bo_fit env model_name st = (e, st')"
  shows "bo_X_sample st' = bo_X_sample st \<and> bo_Y_sample st' = bo_Y_sample st
       \<and> bo_progress st' = bo_progress st \<and> bo_acquisition st' = bo_acquisition st
       \<and> bo_idx_next st' = bo_idx_next st
       \<and> bo_X_next st' = bo_X_next st \<and> bo_Y_next st' = bo_Y_next st"
  using assms
  by (auto simp: bo_fit_def split: sum.splits prod.splits if_splits option.splits)

lemma bo_predict_fields:
  assumes "bo_predict env X_grid model_name st = (e, st')"
  shows "bo_X_sample st' = bo_X_sample st \<and> bo_Y_sample st' = bo_Y_sample st
       \<and> bo_progress st' = bo_progress st \<and> bo_acquisition st' = bo_acquisition st
       \<and> bo_idx_next st' = bo_idx_next st
       \<and> bo_X_next st' = bo_X_next st \<and> bo_Y_next st' = bo_Y_next st
       \<and> bo_model st' = bo_model st"
  using assms
  by (auto simp: bo_predict_def split: sum.splits prod.splits if_splits option.splits)

lemma bo_score_fields:
  assumes "bo_score env acquisition_function kappa xi st = (e, st')"
  shows "bo_X_sample st' = bo_X_sample st \<and> bo_Y_sample st' = bo_Y_sample st
       \<and> bo_progress st' = bo_progress st
       \<and> bo_idx_next st' = bo_idx_next st
       \<and> bo_X_next st' = bo_X_next st \<and> bo_Y_next st' = bo_Y_next st
       \<and> bo_model st' = bo_model st"
  using assms
  by (auto simp: bo_score_def split: sum.splits prod.splits if_splits option.splits)

lemma bo_select_fields:
  assumes "bo_select env batch_size st = (e, st')"
  shows "bo_X_sample st' = bo_X_sample st \<and> bo_Y_sample st' = bo_Y_sample st
       \<and> bo_progress st' = bo_progress st \<and> bo_acquisition st' = bo_acquisition st
       \<and> bo_X_next st' = bo_X_next st \<and> bo_Y_next st' = bo_Y_next st
       \<and> bo_model st' = bo_model st"
  using assms
  by (auto simp: bo_select_def split: sum.splits prod.splits if_splits option.splits)

lemma bo_next_X_fields:
  assumes "bo_next_X X_grid st = (e, st')"
  shows "bo_X_sample st' = bo_X_sample st \<and> bo_Y_sample st' = bo_Y_sample st
       \<and> bo_progress st' = bo_progress st \<and> bo_acquisition st' = bo_acquisition st
       \<and> bo_idx_next st' = bo_idx_next st \<and> bo_Y_next st' = bo_Y_next st
       \<and> bo_model st' = bo_model st"
  using assms
  by (auto simp: bo_next_X_def split: sum.splits prod.splits if_splits option.splits)

lemma bo_next_Y_fields:
  assumes "bo_next_Y fitness_function st = (e, st')"
  shows "bo_X_sample st' = bo_X_sample st \<and> bo_Y_sample st' = bo_Y_sample st
       \<and> bo_progress st' = bo_progress st \<and> bo_acquisition st' = bo_acquisition st
       \<and> bo_idx_next st' = bo_idx_next st \<and> bo_X_next st' = bo_X_next st"
  using assms
  by (auto simp: bo_next_Y_def split: sum.splits prod.splits if_splits option.splits)

lemma bo_stack_X_fields:
  assumes "bo_stack_X st = (e, st')"
  shows "bo_Y_sample st' = bo_Y_sample st
       \<and> bo_progress st' = bo_progress st \<and> bo_acquisition st' = bo_acquisition st
       \<and> bo_idx_next st' = bo_idx_next st \<and> bo_X_next st' = bo_X_next st
       \<and> bo_Y_next st' = bo_Y_next st"
  using assms
  by (auto simp: bo_stack_X_def split: sum.splits prod.splits if_splits option.splits)

lemma bo_stack_Y_fields:
  assumes "bo_stack_Y st = (e, st')"
  shows "bo_X_sample st' = bo_X_sample st
       \<and> bo_progress st' = bo_progress st \<and> bo_acquisition st' = bo_acquisition st
       \<and> bo_idx_next st' = bo_idx_next st \<and> bo_X_next st' = bo_X_next st
       \<and> bo_Y_next st' = bo_Y_next st"
  using assms
  by (auto simp: bo_stack_Y_def split: sum.splits prod.splits if_splits option.splits)

lemma bo_rescale_fields:
  assumes "bo_rescale env model_name st = (e, st')"
  shows "bo_X_sample st' = bo_X_sample st \<and> bo_Y_sample st' = bo_Y_sample st
       \<and> bo_progress st' = bo_progress st \<and> bo_acquisition st' = bo_acquisition st
       \<and> bo_idx_next st' = bo_idx_next st \<and> bo_X_next st' = bo_X_next st
       \<and> bo_Y_next st' = bo_Y_next st"
  using assms
  by (auto simp: bo_rescale_def split: sum.splits prod.splits if_splits option.splits)

lemma bo_progress_tick_fields:
  assumes "bo_progress_tick st = (e, st')"
  shows "bo_X_sample st' = bo_X_sample st \<and> bo_Y_sample st' = bo_Y_sample st
       \<and> bo_progress st' = Suc (bo_progress st) \<and> bo_acquisition st' = bo_acquisition st
       \<and> bo_idx_next st' = bo_idx_next st \<and> bo_X_next st' = bo_X_next st
       \<and> bo_Y_next st' = bo_Y_next st \<and> e = None"
  using assms by (auto simp: bo_progress_tick_def)

lemma bo_score_raises:
  assumes "bo_score env acquisition_function kappa xi st = (Some e, st')"
  shows "bo_acquisition st' = bo_acquisition st"
  using assms
  by (auto simp: bo_score_def split: sum.splits prod.splits if_splits option.splits)

lemma bo_score_ok:
  assumes "bo_score env acquisition_function kappa xi st = (None, st')"
  shows "\<exists>acq. bo_acquisition st' = Some acq"
  using assms
  by (auto simp: bo_score_def split: sum.splits prod.splits if_splits option.splits)

lemma bo_select_ok:
  assumes "bo_select env batch_size st = (None, st')"
  shows "\<exists>acq order. bo_acquisition st = Some acq
           \<and> argpartition_kth env (map fl_neg acq) (batch_size - 1) = Inr order
           \<and> bo_idx_next st' = Some (py_take batch_size order)
           \<and> st' = st\<lparr>bo_idx_next := Some (py_take batch_size order)\<rparr>"
  using assms
  by (auto simp: bo_select_def split: sum.splits prod.splits if_splits option.splits)

lemma bo_next_X_ok:
  assumes "bo_next_X X_grid st = (None, st')"
  shows "\<exists>grid idx X_next. X_grid = Some grid \<and> bo_idx_next st = Some idx
           \<and> take_rows grid idx = Inr X_next \<and> bo_X_next st' = Some X_next"
  using assms
  by (auto simp: bo_next_X_def split: sum.splits prod.splits if_splits option.splits)

lemma bo_next_Y_ok:
  assumes "bo_next_Y fitness_function st = (None, st')"
  shows "\<exists>X_next Y_next. bo_X_next st = Some X_next \<and> fitness_function X_next = Inr Y_next
           \<and> bo_Y_next st' = Some Y_next"
  using assms
  by (auto simp: bo_next_Y_def split: sum.splits prod.splits if_splits option.splits)

lemma bo_stack_X_ok:
  assumes "bo_stack_X st = (None, st')"
  shows "\<exists>X_next. bo_X_next st = Some X_next \<and> bo_X_sample st' = bo_X_sample st @ X_next"
  using assms
  by (auto simp: bo_stack_X_def np_vstack_def split: sum.splits prod.splits if_splits option.splits)

lemma bo_stack_X_raises:
  assumes "bo_stack_X st = (Some e, st')"
  shows "st' = st"
  using assms
  by (auto simp: bo_stack_X_def split: sum.splits prod.splits if_splits option.splits)

lemma bo_stack_Y_ok:
  assumes "bo_stack_Y st = (None, st')"
  shows "\<exists>Y_next. bo_Y_next st = Some Y_next \<and> bo_Y_sample st' = bo_Y_sample st @ Y_next"
  using assms
  by (auto simp: bo_stack_Y_def np_vstack_def split: sum.splits prod.splits if_splits option.splits)

lemma bo_stack_Y_raises:
  assumes "bo_stack_Y st = (Some e, st')" and "bo_Y_next st = Some Y_next"
  shows "st' = st \<and> e = ValueError"
  using assms
  by (auto simp: bo_stack_Y_def np_vstack_def split: sum.splits prod.splits if_splits option.splits)

text \<open>Facts about the selection.\<close>

lemma is_argpartition_length: "is_argpartition a k order \<Longrightarrow> length order = length a"
  unfolding is_argpartition_def by (metis card_atLeastLessThan diff_zero distinct_card)

lemma argpartition_kth_ok:
  assumes "argpartition_contract env" and "argpartition_kth env a kth = Inr order"
  shows "kth < int (length a) \<and> - int (length a) \<le> kth
       \<and> is_argpartition a (nat (if kth < 0 then kth + int (length a) else kth)) order"
proof -
  let ?k = "nat (if kth < 0 then kth + int (length a) else kth)"
  from assms(2) have b: "kth < int (length a)" "- int (length a) \<le> kth"
    and o: "order = np_argpartition env a ?k"
    by (auto simp: argpartition_kth_def Let_def split: if_splits)
  from b have "?k < length a" by auto
  with assms(1) o have "is_argpartition a ?k order"
    unfolding argpartition_contract_def by blast
  with b show ?thesis by simp
qed

lemma selected_length:
  assumes "argpartition_contract env" and "0 \<le> batch_size"
    and "argpartition_kth env a (batch_size - 1) = Inr order"
  shows "length (py_take batch_size order) = nat batch_size \<and> distinct (py_take batch_size order)
       \<and> set (py_take batch_size order) \<subseteq> {0..<length a}"
proof -
  from argpartition_kth_ok[OF assms(1,3)] obtain k where
    b: "batch_size - 1 < int (length a)" and p: "is_argpartition a k order"
    by blast
  from p have len: "length order = length a" by (rule is_argpartition_length)
  from p have d: "distinct order" and s: "set order = {0..<length a}"
    unfolding is_argpartition_def by simp_all
  have t: "py_take batch_size order = take (nat batch_size) order"
    using assms(2) by (simp add: py_take_def)
  have "nat batch_size \<le> length order" using b len assms(2) by linarith
  then have "length (take (nat batch_size) order) = nat batch_size" by simp
  moreover have "distinct (take (nat batch_size) order)" using d by simp
  moreover have "set (take (nat batch_size) order) \<subseteq> {0..<length a}"
    using s set_take_subset by fastforce
  ultimately show ?thesis using t by simp
qed

lemma take_rows_length: "take_rows X idx = Inr R \<Longrightarrow> length R = length idx"
  by (auto simp: take_rows_def split: if_splits)

lemma take_rows_bound: "take_rows X idx = Inr R \<Longrightarrow> i \<in> set idx \<Longrightarrow> i < length X"
  by (auto simp: take_rows_def split: if_splits)

text \<open>The lengths of the sample set, statement by statement.\<close>

lemma bo_body_length [simp]:
  "length (bo_body env fitness_function X_grid model_name acquisition_function
     batch_size kappa xi) = 10"
  by (simp add: bo_body_def)

lemma bo_body_at_stage:
  assumes "argpartition_contract env" and "one_output_per_input fitness_function"
    and "0 \<le> batch_size" and "i < 10" and "at_stage batch_size n i st"
    and "(bo_body env fitness_function X_grid model_name acquisition_function
            batch_size kappa xi ! i) st = (e, st')"
  shows "case e of None \<Rightarrow> at_stage batch_size n (Suc i) st'
                 | Some x \<Rightarrow> after_raise batch_size x st'"
proof -
  from assms(4) consider "i = 0" | "i = 1" | "i = 2" | "i = 3" | "i = 4" | "i = 5"
    | "i = 6" | "i = 7" | "i = 8" | "i = 9"
    by (auto simp: less_Suc_eq eval_nat_numeral)
  then show ?thesis
  proof cases
    case 1
    with assms(6) have s: "bo_fit env model_name st = (e, st')" by (simp add: bo_body_def)
    from bo_fit_fields[OF s] assms(5) 1 show ?thesis
      by (auto simp: at_stage_def after_raise_def split: option.splits)
  next
    case 2
    with assms(6) have s: "bo_predict env X_grid model_name st = (e, st')"
      by (simp add: bo_body_def)
    from bo_predict_fields[OF s] assms(5) 2 show ?thesis
      by (auto simp: at_stage_def after_raise_def split: option.splits)
  next
    case 3
    with assms(6) have s: "bo_score env acquisition_function kappa xi st = (e, st')"
      by (simp add: bo_body_def numeral_2_eq_2)
    from bo_score_fields[OF s] assms(5) 3 show ?thesis
      by (auto simp: at_stage_def after_raise_def split: option.splits)
  next
    case 4
    with assms(6) have s: "bo_select env batch_size st = (e, st')"
      by (simp add: bo_body_def numeral_3_eq_3)
    note f = bo_select_fields[OF s]
    show ?thesis
    proof (cases e)
      case None
      with s bo_select_ok[of env batch_size st st'] obtain acq order where
        o: "argpartition_kth env (map fl_neg acq) (batch_size - 1) = Inr order"
        and i: "bo_idx_next st' = Some (py_take batch_size order)"
        by blast
      from selected_length[OF assms(1,3) o] i f assms(5) 4 None show ?thesis
        by (simp add: at_stage_def)
    next
      case (Some x)
      with f assms(5) 4 show ?thesis by (simp add: at_stage_def after_raise_def)
    qed
  next
    case 5
    with assms(6) have s: "bo_next_X X_grid st = (e, st')"
      by (simp add: bo_body_def eval_nat_numeral)
    note f = bo_next_X_fields[OF s]
    show ?thesis
    proof (cases e)
      case None
      with s bo_next_X_ok[of X_grid st st'] obtain grid idx X_next where
        "bo_idx_next st = Some idx" "take_rows grid idx = Inr X_next"
        "bo_X_next st' = Some X_next"
        by blast
      with take_rows_length[of grid idx X_next] f assms(5) 5 None show ?thesis
        by (auto simp: at_stage_def)
    next
      case (Some x)
      with f assms(5) 5 show ?thesis by (simp add: at_stage_def after_raise_def)
    qed
  next
    case 6
    with assms(6) have s: "bo_next_Y fitness_function st = (e, st')"
      by (simp add: bo_body_def eval_nat_numeral)
    note f = bo_next_Y_fields[OF s]
    show ?thesis
    proof (cases e)
      case None
      with s bo_next_Y_ok[of fitness_function st st'] obtain X_next Y_next where
        "bo_X_next st = Some X_next" "fitness_function X_next = Inr Y_next"
        "bo_Y_next st' = Some Y_next"
        by blast
      moreover from this assms(2) have "length Y_next = length X_next"
        unfolding one_output_per_input_def by blast
      ultimately show ?thesis
        using f assms(5) 6 None by (auto simp: at_stage_def)
    next
      case (Some x)
      with f assms(5) 6 show ?thesis by (simp add: at_stage_def after_raise_def)
    qed
  next
    case 7
    with assms(6) have s: "bo_stack_X st = (e, st')"
      by (simp add: bo_body_def eval_nat_numeral)
    note f = bo_stack_X_fields[OF s]
    show ?thesis
    proof (cases e)
      case None
      with s bo_stack_X_ok[of st st'] obtain X_next where
        "bo_X_next st = Some X_next" "bo_X_sample st' = bo_X_sample st @ X_next"
        by blast
      with f assms(5) 7 None show ?thesis by (auto simp: at_stage_def)
    next
      case (Some x)
      with s bo_stack_X_raises[of st x st'] assms(5) 7 show ?thesis
        by (simp add: at_stage_def after_raise_def)
    qed
  next
    case 8
    with assms(6) have s: "bo_stack_Y st = (e, st')"
      by (simp add: bo_body_def eval_nat_numeral)
    note f = bo_stack_Y_fields[OF s]
    from assms(5) 8 obtain Y_next where y: "bo_Y_next st = Some Y_next" "length Y_next = nat batch_size"
      by (auto simp: at_stage_def)
    show ?thesis
    proof (cases e)
      case None
      with s bo_stack_Y_ok[of st st'] y have "bo_Y_sample st' = bo_Y_sample st @ Y_next"
        by auto
      with f y assms(5) 8 None show ?thesis by (auto simp: at_stage_def)
    next
      case (Some x)
      with s bo_stack_Y_raises[of st x st' Y_next] y have "st' = st" "x = ValueError" by simp_all
      with s Some assms(5) 8 show ?thesis
        by (simp add: at_stage_def after_raise_def)
    qed
  next
    case 9
    with assms(6) have s: "bo_rescale env model_name st = (e, st')"
      by (simp add: bo_body_def eval_nat_numeral)
    from bo_rescale_fields[OF s] assms(5) 9 show ?thesis
      by (auto simp: at_stage_def after_raise_def split: option.splits)
  next
    case 10
    with assms(6) have s: "bo_progress_tick st = (e, st')"
      by (simp add: bo_body_def eval_nat_numeral)
    from bo_progress_tick_fields[OF s] assms(5) 10 show ?thesis
      by (auto simp: at_stage_def after_raise_def split: option.splits)
  qed
qed

lemma bo_statements_at_stage:
  assumes "argpartition_contract env" and "one_output_per_input fitness_function"
    and "0 \<le> batch_size" and "at_stage batch_size n 0 st"
    and "run_block (take j (bo_body env fitness_function X_grid model_name acquisition_function
            batch_size kappa xi)) st = (e, st')"
  shows "case e of None \<Rightarrow> at_stage batch_size n (min j 10) st'
                 | Some x \<Rightarrow> after_raise batch_size x st'"
proof -
  let ?body = "bo_body env fitness_function X_grid model_name acquisition_function
                 batch_size kappa xi"
  have t: "take j ?body = take (min j 10) ?body" by (simp add: min_def)
  have "case e of None \<Rightarrow> at_stage batch_size n (min j 10) st'
                | Some x \<Rightarrow> after_raise batch_size x st'"
  proof (rule run_block_stages[where ss = ?body and I = "at_stage batch_size n"
        and R = "after_raise batch_size" and st = st])
    fix i and s :: "('a, 'b, 'c) bo_state" and e' s'
    assume "i < length ?body" and "at_stage batch_size n i s" and "(?body ! i) s = (e', s')"
    then show "case e' of None \<Rightarrow> at_stage batch_size n (Suc i) s'
                        | Some x \<Rightarrow> after_raise batch_size x s'"
      using bo_body_at_stage[OF assms(1,2,3), of i n s X_grid model_name acquisition_function
          kappa xi e' s']
      by simp
  next
    show "at_stage batch_size n 0 st" by (rule assms(4))
  next
    show "min j 10 \<le> length ?body" by simp
  next
    show "run_block (take (min j 10) ?body) st = (e, st')"
      using assms(5) t by simp
  qed
  then show ?thesis .
qed

lemma at_stage_next: "at_stage B n 10 st \<Longrightarrow> at_stage B (n + nat B) 0 st"
  by (simp add: at_stage_def)

lemma bo_iterations_at_stage:
  assumes "argpartition_contract env" and "one_output_per_input fitness_function"
    and "0 \<le> batch_size" and "at_stage batch_size n 0 st"
    and "for_range k (bo_iteration env fitness_function X_grid model_name acquisition_function
            batch_size kappa xi) st = (e, st')"
  shows "case e of None \<Rightarrow> at_stage batch_size (n + k * nat batch_size) 0 st'
                 | Some x \<Rightarrow> after_raise batch_size x st'"
  using assms(4,5)
proof (induction k arbitrary: n st)
  case 0
  then show ?case by simp
next
  case (Suc k)
  let ?body = "bo_body env fitness_function X_grid model_name acquisition_function
                 batch_size kappa xi"
  from Suc.prems(2) have "and_then (run_block ?body st) (for_range k (run_block ?body)) = (e, st')"
    by (simp add: bo_iteration_def)
  then show ?case
  proof (cases rule: and_then_cases)
    case (stop err)
    then have "run_block (take 10 ?body) st = (Some err, st')" by simp
    from bo_statements_at_stage[OF assms(1,2,3) Suc.prems(1) this] stop show ?thesis by simp
  next
    case (go st1)
    then have "run_block (take 10 ?body) st = (None, st1)" by simp
    from bo_statements_at_stage[OF assms(1,2,3) Suc.prems(1) this]
    have "at_stage batch_size (n + nat batch_size) 0 st1" by (simp add: at_stage_next)
    from Suc.IH[OF this] go(2) show ?thesis
      by (cases e) (simp_all add: bo_iteration_def algebra_simps)
  qed
qed

lemma bo_start_fields:
  assumes "bo_start env X_sample Y_sample model model_name g = (e, st)"
  shows "bo_X_sample st = X_sample \<and> bo_Y_sample st = Y_sample \<and> bo_progress st = 0
       \<and> bo_acquisition st = None \<and> bo_idx_next st = None
       \<and> bo_X_next st = None \<and> bo_Y_next st = None
       \<and> bo_model st = model \<and> bo_rng st = g"
  using assms
  by (auto simp: bo_start_def Let_def split: if_splits sum.splits prod.splits)

text \<open>
  Claim C5, as the code has it. For a run that starts with as many outputs as
  inputs, a batch size \<open>B \<ge> 0\<close> and an objective that returns one output per input,
  at the point of the run after \<open>k\<close> completed iterations and the first \<open>j\<close> statements
  of the next one: the inputs are the initial number plus \<open>k * B\<close>, and \<open>B\<close> more once
  the first \<open>np.vstack\<close> (the seventh statement) has run; the outputs are as many,
  except between the two \<open>np.vstack\<close> statements, where they are still \<open>B\<close> behind.
  A run that raised has as many outputs as inputs unless it was the second
  \<open>np.vstack\<close> that raised, which leaves the inputs \<open>B\<close> ahead.
\<close>

theorem sample_set_lengths:
  assumes "argpartition_contract env" and "one_output_per_input fitness_function"
    and "0 \<le> batch_size" and "length Y_sample = length X_sample"
    and "bo_upto env fitness_function X_grid X_sample Y_sample model model_name
           acquisition_function batch_size kappa xi g k j = (e, st)"
  shows "(e = None \<longrightarrow>
            length (bo_X_sample st)
              = length X_sample + k * nat batch_size + (if 7 \<le> j then nat batch_size else 0)
          \<and> length (bo_Y_sample st)
              = length X_sample + k * nat batch_size + (if 8 \<le> j then nat batch_size else 0))
       \<and> (e \<noteq> None \<longrightarrow>
            length (bo_Y_sample st) = length (bo_X_sample st)
          \<or> (length (bo_X_sample st) = length (bo_Y_sample st) + nat batch_size
             \<and> e = Some ValueError \<and> bo_stack_Y st = (Some ValueError, st)))"
proof -
  let ?n = "length X_sample"
  let ?B = "nat batch_size"
  let ?stmts = "bo_body env fitness_function X_grid model_name acquisition_function
                  batch_size kappa xi"
  let ?iter = "bo_iteration env fitness_function X_grid model_name acquisition_function
                 batch_size kappa xi"
  let ?start = "bo_start env X_sample Y_sample model model_name g"
  let ?goal = "\<lambda>e st. case e of
                  None \<Rightarrow> at_stage batch_size (?n + k * ?B) (min j 10) st
                | Some x \<Rightarrow> after_raise batch_size x st"
  from assms(5) have run: "and_then (and_then ?start (for_range k ?iter))
                             (run_block (take j ?stmts)) = (e, st)"
    by (simp add: bo_upto_def bo_run_def)
  have "?goal e st"
    using run
  proof (cases rule: and_then_cases)
    case (stop err)
    from stop(1) show ?thesis
    proof (cases rule: and_then_cases)
      case (stop err0)
      with bo_start_fields[of env X_sample Y_sample model model_name g "Some err0" st] assms(4)
        \<open>e = Some err\<close>
      show ?thesis by (simp add: after_raise_def)
    next
      case (go st0)
      with bo_start_fields[of env X_sample Y_sample model model_name g None st0] assms(4)
      have "at_stage batch_size ?n 0 st0" by (simp add: at_stage_def)
      from bo_iterations_at_stage[OF assms(1,2,3) this go(2)] \<open>e = Some err\<close>
      show ?thesis by simp
    qed
  next
    case (go st1)
    from go(1) obtain st0 where s0: "?start = (None, st0)"
      and l: "for_range k ?iter st0 = (None, st1)"
      by (auto simp: and_then_None)
    from bo_start_fields[OF s0] assms(4)
    have "at_stage batch_size ?n 0 st0" by (simp add: at_stage_def)
    from bo_iterations_at_stage[OF assms(1,2,3) this l]
    have "at_stage batch_size (?n + k * ?B) 0 st1" by simp
    from bo_statements_at_stage[OF assms(1,2,3) this go(2)] show ?thesis .
  qed
  then show ?thesis
    by (cases e) (auto simp: at_stage_def after_raise_def)
qed

text \<open>The selected batch.\<close>

lemma sort_le_refl: "sort_le a a"
  by (cases a) (simp_all add: sort_le_def)

lemma sort_le_trans: "sort_le a b \<Longrightarrow> sort_le b c \<Longrightarrow> sort_le a c"
  by (cases a; cases b; cases c) (simp_all add: sort_le_def)

lemma sort_le_neg: "sort_le (fl_neg a) (fl_neg b) \<Longrightarrow> b = NaN \<or> fl_le b a"
  by (cases a; cases b) (simp_all add: sort_le_def)

lemma is_argpartition_split:
  assumes "is_argpartition a k order" and "k < length a"
    and "p \<le> k" and "k < q" and "q < length a"
  shows "sort_le (a ! (order ! p)) (a ! (order ! q))"
proof -
  from assms(1) have lo: "\<forall>i<k. sort_le (a ! (order ! i)) (a ! (order ! k))"
    and hi: "\<forall>i. Suc k \<le> i \<and> i < length a \<longrightarrow> sort_le (a ! (order ! k)) (a ! (order ! i))"
    unfolding is_argpartition_def by (auto simp: list_all_iff)
  have "sort_le (a ! (order ! p)) (a ! (order ! k))"
    using lo assms(3) sort_le_refl by (cases "p = k") auto
  moreover have "sort_le (a ! (order ! k)) (a ! (order ! q))"
    using hi assms(4,5) by simp
  ultimately show ?thesis by (rule sort_le_trans)
qed

lemma selected_top:
  assumes "argpartition_contract env" and "0 \<le> batch_size"
    and "argpartition_kth env (map fl_neg acq) (batch_size - 1) = Inr order"
    and "i \<in> set (py_take batch_size order)" and "j < length acq"
    and "j \<notin> set (py_take batch_size order)"
  shows "acq ! j = NaN \<or> fl_le (acq ! j) (acq ! i)"
proof -
  let ?a = "map fl_neg acq"
  let ?n = "length acq"
  have t: "py_take batch_size order = take (nat batch_size) order"
    using assms(2) by (simp add: py_take_def)
  from assms(4) t have "batch_size \<noteq> 0" by auto
  with assms(2) have pos: "0 < batch_size" by simp
  let ?k = "nat (batch_size - 1)"
  from argpartition_kth_ok[OF assms(1,3)] pos
  have b: "batch_size - 1 < int ?n" and p: "is_argpartition ?a ?k order"
    by simp_all
  have k: "?k < ?n" using b pos by simp
  from p have len: "length order = ?n" using is_argpartition_length by fastforce
  from p have s: "set order = {0..<?n}" unfolding is_argpartition_def by simp
  from assms(4) t obtain pi where pi: "pi < nat batch_size" "pi < length order" "order ! pi = i"
    by (auto simp: in_set_conv_nth)
  from assms(5) s obtain q where q: "q < length order" "order ! q = j"
    by (metis atLeastLessThan_iff in_set_conv_nth zero_le)
  have "\<not> q < nat batch_size"
  proof
    assume "q < nat batch_size"
    with q have "j \<in> set (take (nat batch_size) order)"
      by (metis in_set_conv_nth length_take min_less_iff_conj nth_take)
    with assms(6) t show False by simp
  qed
  then have "?k < q" using pos by linarith
  moreover have "pi \<le> ?k" using pi(1) pos by linarith
  ultimately have "sort_le (?a ! (order ! pi)) (?a ! (order ! q))"
    using is_argpartition_split[OF p] k q(1) len by simp
  moreover have "i < ?n" "j < ?n"
    using pi q s len by (metis atLeastLessThan_iff nth_mem)+
  ultimately have "sort_le (fl_neg (acq ! i)) (fl_neg (acq ! j))"
    using pi q by simp
  then show ?thesis by (rule sort_le_neg)
qed

lemma bo_iteration_ok:
  assumes "bo_iteration env fitness_function X_grid model_name acquisition_function
             batch_size kappa xi st = (None, st')"
  shows "\<exists>acq order grid X_next.
           bo_acquisition st' = Some acq
         \<and> argpartition_kth env (map fl_neg acq) (batch_size - 1) = Inr order
         \<and> bo_idx_next st' = Some (py_take batch_size order)
         \<and> X_grid = Some grid \<and> take_rows grid (py_take batch_size order) = Inr X_next"
proof -
  from assms obtain st1 st2 st3 st4 st5 st6 st7 st8 st9 where
    s1: "bo_fit env model_name st = (None, st1)" and
    s2: "bo_predict env X_grid model_name st1 = (None, st2)" and
    s3: "bo_score env acquisition_function kappa xi st2 = (None, st3)" and
    s4: "bo_select env batch_size st3 = (None, st4)" and
    s5: "bo_next_X X_grid st4 = (None, st5)" and
    s6: "bo_next_Y fitness_function st5 = (None, st6)" and
    s7: "bo_stack_X st6 = (None, st7)" and
    s8: "bo_stack_Y st7 = (None, st8)" and
    s9: "bo_rescale env model_name st8 = (None, st9)" and
    s10: "bo_progress_tick st9 = (None, st')"
    unfolding bo_iteration_def bo_body_def run_block.simps and_then_None by blast
  note f4 = bo_select_fields[OF s4] and f5 = bo_next_X_fields[OF s5]
    and f6 = bo_next_Y_fields[OF s6] and f7 = bo_stack_X_fields[OF s7]
    and f8 = bo_stack_Y_fields[OF s8] and f9 = bo_rescale_fields[OF s9]
    and f10 = bo_progress_tick_fields[OF s10]
  from bo_select_ok[OF s4] obtain acq order where
    a: "bo_acquisition st3 = Some acq"
       "argpartition_kth env (map fl_neg acq) (batch_size - 1) = Inr order"
       "bo_idx_next st4 = Some (py_take batch_size order)"
    by blast
  from bo_next_X_ok[OF s5] obtain grid idx X_next where
    u: "X_grid = Some grid" "bo_idx_next st4 = Some idx" "take_rows grid idx = Inr X_next"
    by blast
  have idx: "idx = py_take batch_size order" using a(3) u(2) by simp
  have "bo_acquisition st' = Some acq"
    using a(1) f4 f5 f6 f7 f8 f9 f10 by simp
  moreover have "bo_idx_next st' = Some (py_take batch_size order)"
    using a(3) f5 f6 f7 f8 f9 f10 by simp
  ultimately show ?thesis
    using a(2) u(1,3) idx by blast
qed

lemma bo_run_Suc:
  "bo_run env fitness_function X_grid X_sample Y_sample model model_name acquisition_function
      batch_size kappa xi g (Suc k) =
   and_then (bo_run env fitness_function X_grid X_sample Y_sample model model_name
               acquisition_function batch_size kappa xi g k)
     (bo_iteration env fitness_function X_grid model_name acquisition_function
        batch_size kappa xi)"
proof -
  have assoc: "and_then (and_then r f) h = and_then r (\<lambda>st. and_then (f st) h)"
    for r :: "err option \<times> ('a, 'b, 'c) bo_state" and f h
    by (cases r) (auto simp: and_then_def split: option.splits)
  show ?thesis
    unfolding bo_run_def assoc for_range_snoc[symmetric] ..
qed

text \<open>
  Claim C4. In every completed iteration, for a batch size \<open>B \<ge> 0\<close>, the selected
  indices are exactly \<open>B\<close> distinct indices of the grid, each with a score, and no
  index left out has a greater score than a selected one: its score is at most the
  score of every selected index, or it is a NaN, which NumPy orders last. This holds
  for every \<open>np.argpartition\<close> that meets its contract; which of several equal scores
  at the boundary is selected is not determined by it.
\<close>

theorem selected_batch_is_top:
  assumes "argpartition_contract env" and "0 \<le> batch_size"
    and "bo_run env fitness_function X_grid X_sample Y_sample model model_name
           acquisition_function batch_size kappa xi g (Suc k) = (None, st)"
  shows "\<exists>idx_next acquisition grid.
           bo_idx_next st = Some idx_next \<and> bo_acquisition st = Some acquisition
         \<and> X_grid = Some grid
         \<and> length idx_next = nat batch_size \<and> distinct idx_next
         \<and> (\<forall>i \<in> set idx_next. i < length grid \<and> i < length acquisition)
         \<and> (\<forall>i \<in> set idx_next. \<forall>j < length acquisition. j \<notin> set idx_next \<longrightarrow>
               acquisition ! j = NaN \<or> fl_le (acquisition ! j) (acquisition ! i))"
proof -
  from assms(3) obtain st0 where
    "bo_iteration env fitness_function X_grid model_name acquisition_function
       batch_size kappa xi st0 = (None, st)"
    unfolding bo_run_Suc and_then_None by blast
  from bo_iteration_ok[OF this] obtain acq order grid X_next where
    a: "bo_acquisition st = Some acq"
    and o: "argpartition_kth env (map fl_neg acq) (batch_size - 1) = Inr order"
    and i: "bo_idx_next st = Some (py_take batch_size order)"
    and g: "X_grid = Some grid"
    and r: "take_rows grid (py_take batch_size order) = Inr X_next"
    by blast
  let ?idx = "py_take batch_size order"
  from selected_length[OF assms(1,2) o]
  have l: "length ?idx = nat batch_size" and d: "distinct ?idx"
    and s: "set ?idx \<subseteq> {0..<length acq}"
    by simp_all
  have in_range: "\<forall>i \<in> set ?idx. i < length grid \<and> i < length acq"
    using s take_rows_bound[OF r] by auto
  have top: "\<forall>i \<in> set ?idx. \<forall>j < length acq. j \<notin> set ?idx \<longrightarrow>
               acq ! j = NaN \<or> fl_le (acq ! j) (acq ! i)"
    using selected_top[OF assms(1,2) o] by blast
  from a i g l d in_range top show ?thesis by blast
qed

text \<open>A batch larger than the grid.\<close>

lemma take_rows_oversized:
  assumes "distinct idx" and "length X < length idx"
  shows "take_rows X idx = Inl IndexError"
proof -
  have "\<not> (\<forall>i \<in> set idx. i < length X)"
  proof
    assume "\<forall>i \<in> set idx. i < length X"
    then have "set idx \<subseteq> {0..<length X}" by auto
    then have "card (set idx) \<le> card {0..<length X}" by (intro card_mono) simp_all
    with assms show False by (simp add: distinct_card)
  qed
  then show ?thesis by (simp add: take_rows_def)
qed

lemma bo_next_X_oversized:
  assumes "bo_idx_next st = Some idx" and "distinct idx" and "length grid < length idx"
  shows "bo_next_X (Some grid) st = (Some IndexError, st)"
  using assms take_rows_oversized[OF assms(2,3)]
  by (simp add: bo_next_X_def)

lemma argpartition_kth_short:
  "int (length a) < batch_size \<Longrightarrow> argpartition_kth env a (batch_size - 1) = Inl ValueError"
  by (simp add: argpartition_kth_def Let_def)

lemma argpartition_kth_long:
  assumes "0 < batch_size" and "argpartition_kth env a (batch_size - 1) = Inr order"
  shows "\<not> int (length a) < batch_size \<and> order = np_argpartition env a (nat (batch_size - 1))"
  using assms by (auto simp: argpartition_kth_def Let_def split: if_splits)

lemma bo_select_raises:
  assumes "0 < batch_size" and "bo_select env batch_size st = (Some x, st')"
    and "bo_acquisition st = Some acq"
  shows "st' = st \<and> x = ValueError \<and> int (length acq) < batch_size"
  using assms
  by (auto simp: bo_select_def argpartition_kth_def Let_def split: sum.splits if_splits)

lemma bo_fit_model:
  assumes "model_name \<noteq> ''Neural Network''" and "bo_fit env model_name st = (e, st')"
  shows "bo_model st' = fst (snd (model_fit env (bo_model st) (bo_X_sample st)
                                    (concat (bo_Y_sample st)) (bo_rng st)))"
  using assms by (auto simp: bo_fit_def split: prod.splits)

lemma take_5_bo_body:
  "take 5 (bo_body env fitness_function X_grid model_name acquisition_function
             batch_size kappa xi) =
     [bo_fit env model_name, bo_predict env X_grid model_name,
      bo_score env acquisition_function kappa xi, bo_select env batch_size, bo_next_X X_grid]"
  by (simp add: bo_body_def)

lemma take_3_bo_body:
  "take 3 (bo_body env fitness_function X_grid model_name acquisition_function
             batch_size kappa xi) =
     [bo_fit env model_name, bo_predict env X_grid model_name,
      bo_score env acquisition_function kappa xi]"
  by (simp add: bo_body_def)

lemma bo_first_statements_oversized:
  assumes "argpartition_contract env" and "int (length grid) < batch_size"
    and "run_block (take 5 (bo_body env fitness_function (Some grid) model_name
           acquisition_function batch_size kappa xi)) st = (e, st')"
  shows "e \<noteq> None \<and> bo_X_sample st' = bo_X_sample st \<and> bo_Y_sample st' = bo_Y_sample st
       \<and> bo_progress st' = bo_progress st
       \<and> bo_X_next st' = bo_X_next st \<and> bo_Y_next st' = bo_Y_next st
       \<and> (\<forall>acq. bo_acquisition st = None \<and> bo_acquisition st' = Some acq
                \<and> int (length acq) < batch_size \<longrightarrow> e = Some ValueError)
       \<and> (\<forall>st3. run_block (take 3 (bo_body env fitness_function (Some grid) model_name
                    acquisition_function batch_size kappa xi)) st = (None, st3) \<longrightarrow>
             (\<exists>scores. bo_acquisition st3 = Some scores
                \<and> (if int (length scores) < batch_size
                    then e = Some ValueError \<and> st' = st3
                    else e = Some IndexError
                       \<and> st' = st3\<lparr>bo_idx_next := Some (py_take batch_size
                            (np_argpartition env (map fl_neg scores) (nat (batch_size - 1))))\<rparr>)))
       \<and> (model_name \<noteq> ''Neural Network'' \<longrightarrow>
             bo_model st' = fst (snd (model_fit env (bo_model st) (bo_X_sample st)
                                        (concat (bo_Y_sample st)) (bo_rng st))))"
proof -
  have pos: "0 < batch_size" using assms(2) by linarith
  obtain e1 st1 where s1: "bo_fit env model_name st = (e1, st1)" by fastforce
  note f1 = bo_fit_fields[OF s1]
  have m1: "model_name \<noteq> ''Neural Network'' \<Longrightarrow>
      bo_model st1 = fst (snd (model_fit env (bo_model st) (bo_X_sample st)
                                 (concat (bo_Y_sample st)) (bo_rng st)))"
    using bo_fit_model[OF _ s1] by simp
  from assms(3) have chain: "and_then (bo_fit env model_name st) (\<lambda>s.
      and_then (bo_predict env (Some grid) model_name s) (\<lambda>s.
      and_then (bo_score env acquisition_function kappa xi s) (\<lambda>s.
      and_then (bo_select env batch_size s) (\<lambda>s.
      and_then (bo_next_X (Some grid) s) (\<lambda>s. (None, s)))))) = (e, st')"
    by (simp add: take_5_bo_body run_block_Cons_fun run_block_Nil_fun)
  have three: "run_block (take 3 (bo_body env fitness_function (Some grid) model_name
                    acquisition_function batch_size kappa xi)) st =
      and_then (bo_fit env model_name st) (\<lambda>s.
      and_then (bo_predict env (Some grid) model_name s) (\<lambda>s.
      and_then (bo_score env acquisition_function kappa xi s) (\<lambda>s. (None, s))))"
    by (simp add: take_3_bo_body run_block_Cons_fun run_block_Nil_fun)
  show ?thesis
  proof (cases e1)
    case (Some x)
    with chain three s1 f1 m1 show ?thesis by (auto simp: and_then_def)
  next
    case None
    note n1 = None
    obtain e2 st2 where s2: "bo_predict env (Some grid) model_name st1 = (e2, st2)" by fastforce
    note f2 = bo_predict_fields[OF s2]
    show ?thesis
    proof (cases e2)
      case (Some x)
      with chain three s1 n1 s2 f1 f2 m1 show ?thesis by (auto simp: and_then_def)
    next
      case None
      note n2 = None
      obtain e3 st3 where s3: "bo_score env acquisition_function kappa xi st2 = (e3, st3)"
        by fastforce
      note f3 = bo_score_fields[OF s3]
      show ?thesis
      proof (cases e3)
        case (Some x)
        with chain three s1 n1 s2 n2 s3 f1 f2 f3 m1
          bo_score_raises[of env acquisition_function kappa xi st2 x st3]
        show ?thesis by (auto simp: and_then_def)
      next
        case None
        note n3 = None
        from s3 None bo_score_ok[of env acquisition_function kappa xi st2 st3]
        obtain acq where a: "bo_acquisition st3 = Some acq" by auto
        have pre: "run_block (take 3 (bo_body env fitness_function (Some grid) model_name
                    acquisition_function batch_size kappa xi)) st = (None, st3)"
          using three s1 n1 s2 n2 s3 n3 by (simp add: and_then_def)
        obtain e4 st4 where s4: "bo_select env batch_size st3 = (e4, st4)" by fastforce
        note f4 = bo_select_fields[OF s4]
        show ?thesis
        proof (cases e4)
          case (Some x)
          from bo_select_raises[OF pos s4[unfolded Some] a]
          have r: "st4 = st3" "x = ValueError" "int (length acq) < batch_size" by simp_all
          from chain s1 n1 s2 n2 s3 n3 s4 Some
          have res: "e = Some x" "st' = st4" by (simp_all add: and_then_def)
          show ?thesis
            using res r a pre f1 f2 f3 m1 by auto
        next
          case None
          with s4 bo_select_ok[of env batch_size st3 st4] a obtain order where
            o: "argpartition_kth env (map fl_neg acq) (batch_size - 1) = Inr order"
            and i: "bo_idx_next st4 = Some (py_take batch_size order)"
            and u: "st4 = st3\<lparr>bo_idx_next := Some (py_take batch_size order)\<rparr>"
            by auto
          have b: "0 \<le> batch_size" using pos by linarith
          from selected_length[OF assms(1) b o]
          have "distinct (py_take batch_size order)"
            and "length grid < length (py_take batch_size order)"
            using assms(2) by simp_all
          from bo_next_X_oversized[OF i this]
          have x: "bo_next_X (Some grid) st4 = (Some IndexError, st4)" .
          from argpartition_kth_long[OF pos o]
          have l: "\<not> int (length acq) < batch_size"
            and oo: "order = np_argpartition env (map fl_neg acq) (nat (batch_size - 1))"
            by simp_all
          from chain s1 n1 s2 n2 s3 n3 s4 None x
          have res: "e = Some IndexError" "st' = st4" by (simp_all add: and_then_def)
          have fields: "bo_X_sample st4 = bo_X_sample st" "bo_Y_sample st4 = bo_Y_sample st"
            "bo_progress st4 = bo_progress st" "bo_X_next st4 = bo_X_next st"
            "bo_Y_next st4 = bo_Y_next st" "bo_acquisition st4 = Some acq"
            "bo_model st4 = bo_model st1"
            using f1 f2 f3 f4 a by simp_all
          show ?thesis
            using res l a pre u oo fields m1 by auto
        qed
      qed
    qed
  qed
qed

text \<open>
  Claim C3, as the code has it. With a batch size greater than the number of grid
  points and at least one iteration requested, the call raises; no iteration completes
  (the progress bar stays at 0), the sample set still holds the initial inputs and
  outputs, no batch was taken from the grid and the objective was not evaluated: the
  outcome is the same for every objective. Nothing checks the batch size before the
  loop. Once the first three statements of the first iteration have completed (the
  estimator fitted, the grid predicted and scored), the call ends in the state they
  left, with the \<open>ValueError\<close> of \<open>np.argpartition\<close> when there are fewer scores than
  the batch size, and otherwise with the selection made and the \<open>IndexError\<close> of
  \<open>X_grid[idx_next]\<close>. For an estimator other than the neural network the estimator
  of the final state is the one \<open>model.fit\<close> left.
\<close>

theorem oversized_batch_raises_in_first_iteration:
  assumes "argpartition_contract env" and "int (length grid) < batch_size"
    and "1 \<le> iterations"
  shows "\<exists>e st. bayesian_optimization env fitness_function (Some grid) X_sample Y_sample model
                  model_name acquisition_function iterations batch_size kappa xi g = (Inl e, st)
         \<and> bo_X_sample st = X_sample \<and> bo_Y_sample st = Y_sample \<and> bo_progress st = 0
         \<and> bo_X_next st = None \<and> bo_Y_next st = None
         \<and> (\<forall>other. bayesian_optimization env other (Some grid) X_sample Y_sample model
                  model_name acquisition_function iterations batch_size kappa xi g = (Inl e, st))
         \<and> (\<forall>acq. bo_acquisition st = Some acq \<and> int (length acq) < batch_size
                \<longrightarrow> e = ValueError)
         \<and> (\<forall>st3. bo_upto env fitness_function (Some grid) X_sample Y_sample model model_name
                     acquisition_function batch_size kappa xi g 0 3 = (None, st3) \<longrightarrow>
               (\<exists>scores. bo_acquisition st3 = Some scores
                  \<and> (if int (length scores) < batch_size
                      then e = ValueError \<and> st = st3
                      else e = IndexError
                         \<and> st = st3\<lparr>bo_idx_next := Some (py_take batch_size
                              (np_argpartition env (map fl_neg scores) (nat (batch_size - 1))))\<rparr>)))
         \<and> (model_name \<noteq> ''Neural Network'' \<longrightarrow>
               bo_model st = fst (snd (model_fit env model X_sample (concat Y_sample) g)))"
proof -
  let ?stmts = "\<lambda>f. bo_body env f (Some grid) model_name acquisition_function
                  batch_size kappa xi"
  let ?iter = "\<lambda>f. bo_iteration env f (Some grid) model_name acquisition_function
                 batch_size kappa xi"
  let ?bo = "\<lambda>f. bayesian_optimization env f (Some grid) X_sample Y_sample model
                  model_name acquisition_function iterations batch_size kappa xi g"
  let ?upto = "bo_upto env fitness_function (Some grid) X_sample Y_sample model model_name
                     acquisition_function batch_size kappa xi g 0 3"
  obtain n where n: "nat iterations = Suc n"
    using assms(3) by (cases "nat iterations") auto
  obtain e0 st0 where s0: "bo_start env X_sample Y_sample model model_name g = (e0, st0)"
    by fastforce
  note f0 = bo_start_fields[OF s0]
  have upto: "?upto = and_then (e0, st0) (run_block (take 3 (?stmts fitness_function)))"
    by (simp add: bo_upto_def bo_run_def s0 and_then_assoc and_then_start)
  show ?thesis
  proof (cases e0)
    case (Some x)
    have nn: "model_name = ''Neural Network''"
      using s0 Some by (auto simp: bo_start_def Let_def split: if_splits)
    have "?bo f = (Inl x, st0)" for f
      using s0 Some n by (simp add: bayesian_optimization_def bo_run_def and_then_def)
    moreover have "?upto = (Some x, st0)"
      using upto Some by (simp add: and_then_def)
    ultimately show ?thesis
      using f0 nn by (intro exI[of _ x] exI[of _ st0]) simp
  next
    case None
    obtain e5 st5 where s5: "run_block (take 5 (?stmts fitness_function)) st0 = (e5, st5)"
      by fastforce
    note o = bo_first_statements_oversized[OF assms(1,2) s5]
    from o obtain x where x: "e5 = Some x" by auto
    have same: "take 5 (?stmts f) = take 5 (?stmts fitness_function)" for f
      by (simp add: take_5_bo_body)
    have "run_block (?stmts f) st0 = (Some x, st5)" for f
      using run_block_raised[of 5 "?stmts f" st0 x st5] s5 x same[of f] by simp
    then have res: "?bo f = (Inl x, st5)" for f
      using s0 None n by (simp add: bayesian_optimization_def bo_run_def and_then_def
          bo_iteration_def)
    have up: "?upto = run_block (take 3 (?stmts fitness_function)) st0"
      using upto None by (simp add: and_then_def)
    from o x f0 have fields: "bo_X_sample st5 = X_sample" "bo_Y_sample st5 = Y_sample"
      "bo_progress st5 = 0" "bo_X_next st5 = None" "bo_Y_next st5 = None"
      by simp_all
    from o x f0 have verr: "\<forall>acq. bo_acquisition st5 = Some acq \<and> int (length acq) < batch_size
                \<longrightarrow> x = ValueError"
      by simp
    from o[unfolded x option.inject] have scored: "\<forall>st3. run_block (take 3 (?stmts fitness_function)) st0 = (None, st3) \<longrightarrow>
             (\<exists>scores. bo_acquisition st3 = Some scores
                \<and> (if int (length scores) < batch_size
                    then x = ValueError \<and> st5 = st3
                    else x = IndexError
                       \<and> st5 = st3\<lparr>bo_idx_next := Some (py_take batch_size
                            (np_argpartition env (map fl_neg scores) (nat (batch_size - 1))))\<rparr>))"
      by (elim conjE) assumption
    from o f0 have fitted: "model_name \<noteq> ''Neural Network'' \<longrightarrow>
             bo_model st5 = fst (snd (model_fit env model X_sample (concat Y_sample) g))"
      by simp
    show ?thesis
    proof (intro exI[of _ x] exI[of _ st5] conjI)
      show "?bo fitness_function = (Inl x, st5)" by (rule res)
      show "\<forall>other. ?bo other = (Inl x, st5)" using res by blast
      show "\<forall>st3. ?upto = (None, st3) \<longrightarrow>
               (\<exists>scores. bo_acquisition st3 = Some scores
                  \<and> (if int (length scores) < batch_size
                      then x = ValueError \<and> st5 = st3
                      else x = IndexError
                         \<and> st5 = st3\<lparr>bo_idx_next := Some (py_take batch_size
                              (np_argpartition env (map fl_neg scores) (nat (batch_size - 1))))\<rparr>))"
        unfolding up by (rule scored)
    qed (use fields verr fitted in simp_all)
  qed
qed

section \<open>The instance meets the contracts\<close>

lemma fl_key_le: "fl_key a \<le> fl_key b \<Longrightarrow> sort_le a b"
  by (cases a; cases b) (simp_all add: sort_le_def less_eq_prod_def)

lemma argsort_is_argpartition:
  assumes "k < length a"
  shows "is_argpartition a k (argsort a)"
proof -
  let ?f = "\<lambda>i. fl_key (a ! i)"
  let ?o = "argsort a"
  have len: "length ?o = length a" by (simp add: argsort_def)
  have srt: "sorted (map ?f ?o)" by (simp add: argsort_def)
  have le: "sort_le (a ! (?o ! i)) (a ! (?o ! j))" if "i \<le> j" "j < length a" for i j
  proof -
    have "map ?f ?o ! i \<le> map ?f ?o ! j"
      using srt that len by (intro sorted_nth_mono) simp_all
    then have "?f (?o ! i) \<le> ?f (?o ! j)" using that len by simp
    then show ?thesis by (rule fl_key_le)
  qed
  have "distinct ?o" "set ?o = {0..<length a}" by (simp_all add: argsort_def)
  moreover have "list_all (\<lambda>i. sort_le (a ! (?o ! i)) (a ! (?o ! k))) [0..<k]"
    using le assms by (simp add: list_all_iff)
  moreover have "list_all (\<lambda>i. sort_le (a ! (?o ! k)) (a ! (?o ! i))) [Suc k..<length a]"
    using le assms by (simp add: list_all_iff)
  ultimately show ?thesis unfolding is_argpartition_def by blast
qed

lemma demo_argpartition: "argpartition_contract demo_lib"
  by (simp add: argpartition_contract_def demo_lib_def argsort_is_argpartition)

text \<open>The selection by repeated minimum is a partition around every position.\<close>

lemma sort_lt_total: "\<not> sort_lt x y \<Longrightarrow> sort_le y x"
  by (cases x; cases y) (auto simp: sort_lt_def sort_le_def fl_lt_def fl_eq_def)

lemma sort_lt_le: "sort_lt x y \<Longrightarrow> sort_le x y"
  by (cases x; cases y) (auto simp: sort_lt_def sort_le_def fl_lt_def fl_eq_def)

lemma first_min_fold:
  assumes "i \<le> m" and "m < j" and "j \<le> n"
    and "\<forall>q. i \<le> q \<and> q < j \<longrightarrow> sort_le (v ! (t ! m)) (v ! (t ! q))"
  shows "let m' = foldl (\<lambda>minidx k. if sort_lt (v ! (t ! k)) (v ! (t ! minidx)) then k else minidx)
                    m [j..<n]
         in i \<le> m' \<and> m' < n \<and> (\<forall>q. i \<le> q \<and> q < n \<longrightarrow> sort_le (v ! (t ! m')) (v ! (t ! q)))"
  using assms
proof (induction "n - j" arbitrary: m j)
  case 0
  then have "j = n" by simp
  with 0 show ?case by simp
next
  case (Suc d)
  then have jn: "j < n" by linarith
  let ?m = "if sort_lt (v ! (t ! j)) (v ! (t ! m)) then j else m"
  have u: "[j..<n] = j # [Suc j..<n]" using jn by (simp add: upt_conv_Cons)
  have d: "d = n - Suc j" using Suc.hyps(2) by linarith
  have a: "i \<le> ?m" using Suc.prems(1,2) by simp
  have b: "?m < Suc j" using Suc.prems(2) by simp
  have c: "Suc j \<le> n" using jn by simp
  have e: "\<forall>q. i \<le> q \<and> q < Suc j \<longrightarrow> sort_le (v ! (t ! ?m)) (v ! (t ! q))"
  proof (intro allI impI)
    fix q assume q: "i \<le> q \<and> q < Suc j"
    show "sort_le (v ! (t ! ?m)) (v ! (t ! q))"
    proof (cases "sort_lt (v ! (t ! j)) (v ! (t ! m))")
      case True
      show ?thesis
      proof (cases "q = j")
        case True
        with \<open>sort_lt (v ! (t ! j)) (v ! (t ! m))\<close> show ?thesis by (simp add: sort_le_refl)
      next
        case False
        with q have "q < j" by simp
        with q Suc.prems(4) have "sort_le (v ! (t ! m)) (v ! (t ! q))" by simp
        with sort_lt_le[OF True] True show ?thesis by (auto intro: sort_le_trans)
      qed
    next
      case False
      show ?thesis
      proof (cases "q = j")
        case True
        with sort_lt_total[OF False] False show ?thesis by simp
      next
        case qj: False
        with q have "q < j" by simp
        with q Suc.prems(4) False show ?thesis by simp
      qed
    qed
  qed
  from Suc.hyps(1)[OF d a b c e] show ?case by (simp add: u)
qed

lemma first_min_least:
  assumes "i < length t"
  shows "i \<le> first_min v t i \<and> first_min v t i < length t
       \<and> (\<forall>q. i \<le> q \<and> q < length t \<longrightarrow> sort_le (v ! (t ! first_min v t i)) (v ! (t ! q)))"
proof -
  have "\<forall>q. i \<le> q \<and> q < Suc i \<longrightarrow> sort_le (v ! (t ! i)) (v ! (t ! q))"
    by (auto simp: less_Suc_eq_le sort_le_refl)
  from first_min_fold[of i i "Suc i" "length t" v t, OF _ _ _ this] assms
  show ?thesis by (simp add: first_min_def Let_def)
qed

lemma selected_upto_step:
  assumes "selected_upto v i t" and "i < length v"
  shows "selected_upto v (Suc i)
           (let minidx = first_min v t i in t[i := t ! minidx, minidx := t ! i])"
proof -
  let ?m = "first_min v t i"
  let ?t = "t[i := t ! ?m, ?m := t ! i]"
  from assms have len: "length t = length v" and d: "distinct t" and s: "set t = {0..<length v}"
    and sorted: "\<forall>p q. p < i \<and> p < q \<and> q < length v \<longrightarrow> sort_le (v ! (t ! p)) (v ! (t ! q))"
    by (simp_all add: selected_upto_def)
  from first_min_least[of i t v] assms(2) len
  have m: "i \<le> ?m" "?m < length t"
    and least: "\<forall>q. i \<le> q \<and> q < length t \<longrightarrow> sort_le (v ! (t ! ?m)) (v ! (t ! q))"
    by simp_all
  have i: "i < length t" using assms(2) len by simp
  have at: "?t ! q = (if q = ?m then t ! i else if q = i then t ! ?m else t ! q)"
    if "q < length t" for q
    using that i m by (auto simp: nth_list_update)
  have later: "\<exists>q'. i \<le> q' \<and> q' < length t \<and> ?t ! q = t ! q'" if "i \<le> q" "q < length t" for q
    using that at[of q] m i by (cases "q = ?m"; cases "q = i") auto
  have "sort_le (v ! (?t ! p)) (v ! (?t ! q))" if pq: "p < Suc i" "p < q" "q < length v" for p q
  proof (cases "p = i")
    case True
    from pq len have q: "i \<le> q" "q < length t" using True by simp_all
    from later[OF q] obtain q' where q': "i \<le> q'" "q' < length t" "?t ! q = t ! q'" by blast
    have "?t ! p = t ! ?m" using True at[of i] i by simp
    with q' least show ?thesis by simp
  next
    case False
    with pq have p: "p < i" by simp
    then have tp: "?t ! p = t ! p" using at[of p] i m by simp
    show ?thesis
    proof (cases "q < i")
      case True
      then have "?t ! q = t ! q" using at[of q] i m by simp
      with tp sorted p pq show ?thesis by simp
    next
      case False
      then have q: "i \<le> q" "q < length t" using pq len by simp_all
      from later[OF q] obtain q' where q': "i \<le> q'" "q' < length t" "?t ! q = t ! q'" by blast
      with p len have "p < q'" "q' < length v" by simp_all
      with sorted p have "sort_le (v ! (t ! p)) (v ! (t ! q'))" by blast
      with tp q' show ?thesis by simp
    qed
  qed
  moreover have "distinct ?t" using d i m by simp
  moreover have "set ?t = {0..<length v}" using s i m by (simp add: set_swap)
  moreover have "length ?t = length v" using len by simp
  ultimately show ?thesis by (simp add: selected_upto_def Let_def)
qed

lemma selected_upto_fold:
  assumes "selected_upto v 0 t" and "m \<le> length v"
  shows "selected_upto v m
           (foldl (\<lambda>tosort i. let minidx = first_min v tosort i
                               in tosort[i := tosort ! minidx, minidx := tosort ! i]) t [0..<m])"
  using assms(2)
proof (induction m)
  case 0
  with assms(1) show ?case by simp
next
  case (Suc m)
  then have "m \<le> length v" "m < length v" by simp_all
  from selected_upto_step[OF Suc.IH[OF this(1)] this(2)] show ?case by simp
qed

lemma dumb_select_is_argpartition:
  assumes "kth < length v"
  shows "is_argpartition v kth (dumb_select v kth)"
proof -
  have "selected_upto v 0 [0..<length v]" by (simp add: selected_upto_def)
  from selected_upto_fold[OF this, of "Suc kth"] assms
  have "selected_upto v (Suc kth) (dumb_select v kth)" by (simp add: dumb_select_def)
  with assms show ?thesis
    by (auto simp: selected_upto_def is_argpartition_def list_all_iff)
qed

lemma selection_argpartition: "argpartition_contract selection_lib"
  by (simp add: argpartition_contract_def selection_lib_def dumb_select_is_argpartition)

lemma demo_objective_outputs: "one_output_per_input demo_objective"
  by (auto simp: one_output_per_input_def demo_objective_def)

lemmas demo_simps = bo_run_def bo_upto_def bo_start_def bo_iteration_def bo_body_def bo_fit_def
  bo_predict_def bo_score_def bo_select_def bo_next_X_def bo_next_Y_def bo_stack_X_def
  bo_stack_Y_def bo_rescale_def bo_progress_tick_def and_then_def
  estimate_uncertainty_def compute_acquisition_def broadcast2_def argpartition_kth_def
  py_take_def take_rows_def np_vstack_def err_bind_def demo_lib_def demo_objective_def
  first_coord_def argsort_def less_eq_prod_def Let_def bayesian_optimization_def bo_return_def

lemma demo_run2:
  "bo_run demo_lib demo_objective (Some [[Fin 0], [Fin 1], [Fin 2]]) [[Fin 0]] [[Fin 0]] []
     ''Gaussian Process'' ''UCB'' 1 (Fin 2) (Fin 0) (0::nat) 2 =
   (None, \<lparr>bo_X_sample = [[Fin 0], [Fin 2], [Fin 2]],
           bo_Y_sample = [[Fin 0], [Fin 2], [Fin 2]],
           bo_X_sample_scaled = None, bo_mu = Some [Fin 0, Fin 1, Fin 2],
           bo_sigma = Some [Fin 1, Fin 1, Fin 1], bo_acquisition = Some [Fin 2, Fin 3, Fin 4],
           bo_idx_next = Some [2], bo_X_next = Some [[Fin 2]], bo_Y_next = Some [[Fin 2]],
           bo_model = [Fin 0, Fin 2], bo_scaler = None, bo_rng = 0, bo_progress = 2\<rparr>)"
  by (simp add: demo_simps numeral_2_eq_2 upt_rec)

text \<open>The selection of the instance \<open>selection_lib\<close> on the scores 5, 1, 1, 1, 5, 1.\<close>

lemma dumb_select_scores:
  "dumb_select (map fl_neg [Fin 5, Fin 1, Fin 1, Fin 1, Fin 5, Fin 1]) 2 = [0, 4, 2, 3, 1, 5]"
proof -
  let ?v = "map fl_neg [Fin 5, Fin 1, Fin 1, Fin 1, Fin 5, Fin 1]"
  define step where "step = (\<lambda>tosort i. let minidx = first_min ?v tosort i
                        in tosort[i := tosort ! minidx, minidx := tosort ! i])"
  have s: "step t i = (let m = first_min ?v t i in t[i := t ! m, m := t ! i])" for t i
    by (simp add: step_def)
  have m0: "first_min ?v [0, 1, 2, 3, 4, 5] 0 = 0"
    by (simp add: first_min_def sort_lt_def fl_lt_def fl_eq_def upt_rec)
  have m1: "first_min ?v [0, 1, 2, 3, 4, 5] 1 = 4"
    by (simp add: first_min_def sort_lt_def fl_lt_def fl_eq_def upt_rec)
  have m2: "first_min ?v [0, 4, 2, 3, 1, 5] 2 = 2"
    by (simp add: first_min_def sort_lt_def fl_lt_def fl_eq_def upt_rec)
  have "dumb_select ?v 2 = foldl step [0..<length ?v] [0..<Suc 2]"
    unfolding dumb_select_def step_def ..
  also have "\<dots> = step (step (step [0, 1, 2, 3, 4, 5] 0) 1) 2"
    by (simp add: upt_rec eval_nat_numeral)
  also have "step [0, 1, 2, 3, 4, 5] 0 = [0, 1, 2, 3, 4, 5]"
    by (simp only: s m0 Let_def) (simp add: eval_nat_numeral)
  also have "step [0, 1, 2, 3, 4, 5] 1 = [0, 4, 2, 3, 1, 5]"
    by (simp only: s m1 Let_def) (simp add: eval_nat_numeral)
  also have "step [0, 4, 2, 3, 1, 5] 2 = [0, 4, 2, 3, 1, 5]"
    by (simp only: s m2 Let_def) (simp add: eval_nat_numeral)
  finally show ?thesis .
qed

section \<open>Runs of the instance\<close>

lemma demo_between:
  "bo_upto demo_lib demo_objective (Some [[Fin 0], [Fin 1], [Fin 2]]) [[Fin 0]] [[Fin 0]] []
     ''Gaussian Process'' ''UCB'' 1 (Fin 2) (Fin 0) (0::nat) (Suc 0) 7 =
   (None, \<lparr>bo_X_sample = [[Fin 0], [Fin 2], [Fin 2]], bo_Y_sample = [[Fin 0], [Fin 2]],
           bo_X_sample_scaled = None, bo_mu = Some [Fin 0, Fin 1, Fin 2],
           bo_sigma = Some [Fin 1, Fin 1, Fin 1], bo_acquisition = Some [Fin 2, Fin 3, Fin 4],
           bo_idx_next = Some [2], bo_X_next = Some [[Fin 2]], bo_Y_next = Some [[Fin 2]],
           bo_model = [Fin 0, Fin 2], bo_scaler = None, bo_rng = 0, bo_progress = 1\<rparr>)"
  by (simp add: demo_simps numeral_2_eq_2 upt_rec)

theorem sample_set_lengths_witness:
  "argpartition_contract demo_lib \<and> one_output_per_input demo_objective \<and> (0::int) \<le> 1
   \<and> length [[Fin 0]] = length [[Fin 0]]
   \<and> bo_upto demo_lib demo_objective (Some [[Fin 0], [Fin 1], [Fin 2]]) [[Fin 0]] [[Fin 0]] []
        ''Gaussian Process'' ''UCB'' 1 (Fin 2) (Fin 0) (0::nat) (Suc 0) 7 =
      (None, \<lparr>bo_X_sample = [[Fin 0], [Fin 2], [Fin 2]], bo_Y_sample = [[Fin 0], [Fin 2]],
           bo_X_sample_scaled = None, bo_mu = Some [Fin 0, Fin 1, Fin 2],
           bo_sigma = Some [Fin 1, Fin 1, Fin 1], bo_acquisition = Some [Fin 2, Fin 3, Fin 4],
           bo_idx_next = Some [2], bo_X_next = Some [[Fin 2]], bo_Y_next = Some [[Fin 2]],
           bo_model = [Fin 0, Fin 2], bo_scaler = None, bo_rng = 0, bo_progress = 1\<rparr>)
   \<and> length [[Fin 0], [Fin 2], [Fin (2::real)]] = length [[Fin (0::real)]] + Suc 0 * nat 1 + nat 1
   \<and> length [[Fin 0], [Fin (2::real)]] = length [[Fin (0::real)]] + Suc 0 * nat 1 + 0"
proof -
  have b: "(0::int) \<le> 1" by simp
  have l: "length [[Fin 0]] = length [[Fin (0::real)]]" by simp
  show ?thesis
    using demo_argpartition demo_objective_outputs
      sample_set_lengths[OF demo_argpartition demo_objective_outputs b l demo_between]
    by (simp add: demo_between)
qed

theorem unequal_lengths_counterexample:
  "bo_upto demo_lib demo_objective (Some [[Fin 0], [Fin 1], [Fin 2]]) [[Fin 0]] [[Fin 0]] []
     ''Gaussian Process'' ''UCB'' 1 (Fin 2) (Fin 0) (0::nat) 0 7 =
   (None, \<lparr>bo_X_sample = [[Fin 0], [Fin 2]], bo_Y_sample = [[Fin 0]],
           bo_X_sample_scaled = None, bo_mu = Some [Fin 0, Fin 1, Fin 2],
           bo_sigma = Some [Fin 1, Fin 1, Fin 1], bo_acquisition = Some [Fin 2, Fin 3, Fin 4],
           bo_idx_next = Some [2], bo_X_next = Some [[Fin 2]], bo_Y_next = Some [[Fin 2]],
           bo_model = [Fin 0], bo_scaler = None, bo_rng = 0, bo_progress = 0\<rparr>)
   \<and> length [[Fin 0], [Fin (2::real)]] = 2 \<and> length [[Fin (0::real)]] = 1"
  by (simp add: demo_simps numeral_2_eq_2 upt_rec)

lemma demo_run1:
  "bo_run demo_lib demo_objective (Some [[Fin 0], [Fin 1], [Fin 2]]) [[Fin 0]] [[Fin 0]] []
     ''Gaussian Process'' ''UCB'' 2 (Fin 2) (Fin 0) (0::nat) (Suc 0) =
   (None, \<lparr>bo_X_sample = [[Fin 0], [Fin 2], [Fin 1]],
           bo_Y_sample = [[Fin 0], [Fin 2], [Fin 1]],
           bo_X_sample_scaled = None, bo_mu = Some [Fin 0, Fin 1, Fin 2],
           bo_sigma = Some [Fin 1, Fin 1, Fin 1], bo_acquisition = Some [Fin 2, Fin 3, Fin 4],
           bo_idx_next = Some [2, 1], bo_X_next = Some [[Fin 2], [Fin 1]],
           bo_Y_next = Some [[Fin 2], [Fin 1]],
           bo_model = [Fin 0], bo_scaler = None, bo_rng = 0, bo_progress = 1\<rparr>)"
  by (simp add: demo_simps numeral_2_eq_2 upt_rec)

theorem selected_batch_is_top_witness:
  "argpartition_contract demo_lib \<and> (0::int) \<le> 2
   \<and> bo_run demo_lib demo_objective (Some [[Fin 0], [Fin 1], [Fin 2]]) [[Fin 0]] [[Fin 0]] []
        ''Gaussian Process'' ''UCB'' 2 (Fin 2) (Fin 0) (0::nat) (Suc 0) =
      (None, \<lparr>bo_X_sample = [[Fin 0], [Fin 2], [Fin 1]],
           bo_Y_sample = [[Fin 0], [Fin 2], [Fin 1]],
           bo_X_sample_scaled = None, bo_mu = Some [Fin 0, Fin 1, Fin 2],
           bo_sigma = Some [Fin 1, Fin 1, Fin 1], bo_acquisition = Some [Fin 2, Fin 3, Fin 4],
           bo_idx_next = Some [2, 1], bo_X_next = Some [[Fin 2], [Fin 1]],
           bo_Y_next = Some [[Fin 2], [Fin 1]],
           bo_model = [Fin 0], bo_scaler = None, bo_rng = 0, bo_progress = 1\<rparr>)
   \<and> length [2, 1 :: nat] = nat 2 \<and> distinct [2, 1 :: nat]
   \<and> fl_le ([Fin 2, Fin 3, Fin 4] ! 0) ([Fin 2, Fin 3, Fin 4] ! 1)
   \<and> fl_le ([Fin 2, Fin 3, Fin 4] ! 0) ([Fin 2, Fin 3, Fin 4] ! 2)"
proof -
  have b: "(0::int) \<le> 2" by simp
  show ?thesis
    using demo_argpartition selected_batch_is_top[OF demo_argpartition b demo_run1]
    by (simp add: demo_run1)
qed

text \<open>
  The same controller on the instance \<open>selection_lib\<close>, whose selection meets the
  contract of \<open>np.argpartition\<close>: the scores of the six grid points are 5, 1, 1, 1, 5, 1
  and the batch size is 3; the selected indices are 0, 4 and 2, and index 1, whose
  score equals that of index 2, is left out.
\<close>

theorem tie_selection_counterexample:
  "bo_run selection_lib demo_objective
     (Some [[Fin 5, Fin 0], [Fin 1, Fin 0], [Fin 1, Fin 1], [Fin 1, Fin 2], [Fin 5, Fin 1],
            [Fin 1, Fin 3]])
     [[Fin 0, Fin 0]] [[Fin 0]] [] ''Gaussian Process'' ''UCB'' 3 (Fin 0) (Fin 0) (0::nat) (Suc 0) =
   (None, \<lparr>bo_X_sample = [[Fin 0, Fin 0], [Fin 5, Fin 0], [Fin 5, Fin 1], [Fin 1, Fin 1]],
           bo_Y_sample = [[Fin 0], [Fin 5], [Fin 5], [Fin 1]],
           bo_X_sample_scaled = None,
           bo_mu = Some [Fin 5, Fin 1, Fin 1, Fin 1, Fin 5, Fin 1],
           bo_sigma = Some [Fin 1, Fin 1, Fin 1, Fin 1, Fin 1, Fin 1],
           bo_acquisition = Some [Fin 5, Fin 1, Fin 1, Fin 1, Fin 5, Fin 1],
           bo_idx_next = Some [0, 4, 2],
           bo_X_next = Some [[Fin 5, Fin 0], [Fin 5, Fin 1], [Fin 1, Fin 1]],
           bo_Y_next = Some [[Fin 5], [Fin 5], [Fin 1]],
           bo_model = [Fin 0], bo_scaler = None, bo_rng = 0, bo_progress = 1\<rparr>)
   \<and> argpartition_contract selection_lib
   \<and> [Fin 5, Fin 1, Fin 1, Fin 1, Fin 5, Fin 1] ! 1 = [Fin 5, Fin 1, Fin 1, Fin 1, Fin 5, Fin 1] ! 2
   \<and> (1::nat) \<notin> set [0, 4, 2] \<and> (2::nat) \<in> set [0, 4, 2]"
proof -
  have run: "bo_run selection_lib demo_objective
     (Some [[Fin 5, Fin 0], [Fin 1, Fin 0], [Fin 1, Fin 1], [Fin 1, Fin 2], [Fin 5, Fin 1],
            [Fin 1, Fin 3]])
     [[Fin 0, Fin 0]] [[Fin 0]] [] ''Gaussian Process'' ''UCB'' 3 (Fin 0) (Fin 0) (0::nat) (Suc 0) =
   (None, \<lparr>bo_X_sample = [[Fin 0, Fin 0], [Fin 5, Fin 0], [Fin 5, Fin 1], [Fin 1, Fin 1]],
           bo_Y_sample = [[Fin 0], [Fin 5], [Fin 5], [Fin 1]],
           bo_X_sample_scaled = None,
           bo_mu = Some [Fin 5, Fin 1, Fin 1, Fin 1, Fin 5, Fin 1],
           bo_sigma = Some [Fin 1, Fin 1, Fin 1, Fin 1, Fin 1, Fin 1],
           bo_acquisition = Some [Fin 5, Fin 1, Fin 1, Fin 1, Fin 5, Fin 1],
           bo_idx_next = Some [0, 4, 2],
           bo_X_next = Some [[Fin 5, Fin 0], [Fin 5, Fin 1], [Fin 1, Fin 1]],
           bo_Y_next = Some [[Fin 5], [Fin 5], [Fin 1]],
           bo_model = [Fin 0], bo_scaler = None, bo_rng = 0, bo_progress = 1\<rparr>)"
    by (simp add: demo_simps selection_lib_def dumb_select_scores[simplified])
  from run selection_argpartition show ?thesis by simp
qed

lemma demo_oversized:
  "bayesian_optimization demo_lib f (Some [[Fin 0], [Fin 1], [Fin 2]]) [[Fin 0]]
     [[Fin 0]] [] ''Gaussian Process'' ''UCB'' 1 4 (Fin 2) (Fin 0) (0::nat) =
   (Inl ValueError,
    \<lparr>bo_X_sample = [[Fin 0]], bo_Y_sample = [[Fin 0]],
      bo_X_sample_scaled = None, bo_mu = Some [Fin 0, Fin 1, Fin 2],
      bo_sigma = Some [Fin 1, Fin 1, Fin 1], bo_acquisition = Some [Fin 2, Fin 3, Fin 4],
      bo_idx_next = None, bo_X_next = None, bo_Y_next = None,
      bo_model = [Fin 0], bo_scaler = None, bo_rng = 0,
      bo_progress = 0\<rparr>)"
  by (simp add: demo_simps numeral_2_eq_2 upt_rec)

theorem oversized_batch_raises_in_first_iteration_witness:
  "argpartition_contract demo_lib \<and> int (length [[Fin 0], [Fin 1], [Fin (2::real)]]) < 4
   \<and> (1::int) \<le> 1
   \<and> bayesian_optimization demo_lib demo_objective (Some [[Fin 0], [Fin 1], [Fin 2]]) [[Fin 0]]
        [[Fin 0]] [] ''Gaussian Process'' ''UCB'' 1 4 (Fin 2) (Fin 0) (0::nat) =
      (Inl ValueError,
       \<lparr>bo_X_sample = [[Fin 0]], bo_Y_sample = [[Fin 0]],
         bo_X_sample_scaled = None, bo_mu = Some [Fin 0, Fin 1, Fin 2],
         bo_sigma = Some [Fin 1, Fin 1, Fin 1], bo_acquisition = Some [Fin 2, Fin 3, Fin 4],
         bo_idx_next = None, bo_X_next = None, bo_Y_next = None,
         bo_model = [Fin 0], bo_scaler = None, bo_rng = 0,
         bo_progress = 0\<rparr>)
   \<and> bayesian_optimization demo_lib (\<lambda>X. Inl TypeError) (Some [[Fin 0], [Fin 1], [Fin 2]]) [[Fin 0]]
        [[Fin 0]] [] ''Gaussian Process'' ''UCB'' 1 4 (Fin 2) (Fin 0) (0::nat) =
      bayesian_optimization demo_lib demo_objective (Some [[Fin 0], [Fin 1], [Fin 2]]) [[Fin 0]]
        [[Fin 0]] [] ''Gaussian Process'' ''UCB'' 1 4 (Fin 2) (Fin 0) (0::nat)
   \<and> bo_model (snd (bayesian_optimization demo_lib demo_objective
        (Some [[Fin 0], [Fin 1], [Fin 2]]) [[Fin 0]] [[Fin 0]] [] ''Gaussian Process'' ''UCB''
        1 4 (Fin 2) (Fin 0) (0::nat)))
      = fst (snd (model_fit demo_lib [] [[Fin 0]] (concat [[Fin 0]]) (0::nat)))"
proof -
  have a: "int (length [[Fin 0], [Fin 1], [Fin (2::real)]]) < 4" by simp
  have b: "(1::int) \<le> 1" by simp
  have gp: "''Gaussian Process'' \<noteq> ''Neural Network''" by simp
  from oversized_batch_raises_in_first_iteration[OF demo_argpartition a b,
        of demo_objective "[[Fin 0]]" "[[Fin 0]]" "[]" "''Gaussian Process''" "''UCB''"
           "Fin 2" "Fin 0" 0]
  obtain e st where
    r: "bayesian_optimization demo_lib demo_objective (Some [[Fin 0], [Fin 1], [Fin 2]]) [[Fin 0]]
          [[Fin 0]] [] ''Gaussian Process'' ''UCB'' 1 4 (Fin 2) (Fin 0) (0::nat) = (Inl e, st)"
    and o: "\<forall>other. bayesian_optimization demo_lib other (Some [[Fin 0], [Fin 1], [Fin 2]])
          [[Fin 0]] [[Fin 0]] [] ''Gaussian Process'' ''UCB'' 1 4 (Fin 2) (Fin 0) (0::nat)
            = (Inl e, st)"
    and m: "''Gaussian Process'' \<noteq> ''Neural Network'' \<longrightarrow>
              bo_model st = fst (snd (model_fit demo_lib [] [[Fin 0]] (concat [[Fin 0]]) (0::nat)))"
    by blast
  from o have "bayesian_optimization demo_lib (\<lambda>X. Inl TypeError) (Some [[Fin 0], [Fin 1], [Fin 2]])
          [[Fin 0]] [[Fin 0]] [] ''Gaussian Process'' ''UCB'' 1 4 (Fin 2) (Fin 0) (0::nat)
            = (Inl e, st)" by blast
  with r m gp a b demo_argpartition show ?thesis
    using demo_oversized[of demo_objective] by simp
qed

theorem rejection_after_fit_counterexample:
  "fst (bayesian_optimization demo_lib demo_objective (Some [[Fin 0]]) [[Fin 1]]
     [[Fin 1]] [] ''Gaussian Process'' ''UCB'' 1 2 (Fin 2) (Fin 0) (0::nat)) = Inl ValueError
   \<and> bo_model (snd (bayesian_optimization demo_lib demo_objective (Some [[Fin 0]]) [[Fin 1]]
     [[Fin 1]] [] ''Gaussian Process'' ''UCB'' 1 2 (Fin 2) (Fin 0) (0::nat))) = [Fin 1]
   \<and> bo_acquisition (snd (bayesian_optimization demo_lib demo_objective (Some [[Fin 0]])
     [[Fin 1]] [[Fin 1]] [] ''Gaussian Process'' ''UCB'' 1 2 (Fin 2) (Fin 0) (0::nat)))
       = Some [Fin 2]
   \<and> model_fit demo_lib [] [[Fin 1]] (concat [[Fin 1]]) (0::nat) = (None, [Fin 1], 0)
   \<and> [Fin (1::real)] \<noteq> []"
  by (simp add: demo_simps)

section \<open>Reproducibility of the entry point\<close>

lemma ibo_setup_independent:
  "fst (ibo_setup env c w1) = fst (ibo_setup env c w2)
   \<and> (\<forall>r. fst (ibo_setup env c w1) = Inr r \<longrightarrow>
         w_X_grid (snd (ibo_setup env c w1)) = w_X_grid (snd (ibo_setup env c w2))
       \<and> w_rng (snd (ibo_setup env c w1)) = w_rng (snd (ibo_setup env c w2)))"
  by (simp add: ibo_setup_def Let_def split: sum.splits prod.splits)

text \<open>
  Claim C6. Two runs of the entry point with the same configuration (the seed is part
  of it) on the same libraries hand over the same result, with the same final sample
  set, and go through the same controller states, with the same selected batch, after
  every number \<open>k\<close> of iterations, whatever the global generator and the global
  variables held when each run began.
\<close>

theorem rerun_is_identical:
  "fst (interactive_bayesian_optimization env c w1)
     = fst (interactive_bayesian_optimization env c w2)
   \<and> ibo_run env c w1 k = ibo_run env c w2 k"
proof -
  obtain r1 v1 where s1: "ibo_setup env c w1 = (r1, v1)" by fastforce
  obtain r2 v2 where s2: "ibo_setup env c w2 = (r2, v2)" by fastforce
  from ibo_setup_independent[of env c w1 w2] s1 s2
  have r: "r1 = r2" and w: "\<forall>r. r1 = Inr r \<longrightarrow> w_X_grid v1 = w_X_grid v2 \<and> w_rng v1 = w_rng v2"
    by simp_all
  show ?thesis
  proof (cases r1)
    case (Inl e)
    with r s1 s2 show ?thesis
      by (auto simp: interactive_bayesian_optimization_def ibo_run_def)
  next
    case (Inr t)
    with w have "w_X_grid v1 = w_X_grid v2" "w_rng v1 = w_rng v2" by blast+
    with Inr r s1 s2 show ?thesis
      by (auto simp: interactive_bayesian_optimization_def ibo_run_def split: prod.splits)
  qed
qed

section \<open>Properties of the uncertainty estimate\<close>

lemma round_half_even_le:
  assumes "x \<le> of_int k"
  shows "round_half_even x \<le> k"
proof -
  have f: "\<lfloor>x\<rfloor> \<le> k" using assms by (simp add: floor_le_iff) 
  show ?thesis
  proof (cases "x = of_int \<lfloor>x\<rfloor>")
    case True
    then have "x - of_int \<lfloor>x\<rfloor> = 0" by simp
    then show ?thesis using f by (simp add: round_half_even_def Let_def)
  next
    case False
    then have "of_int \<lfloor>x\<rfloor> < x" by (metis of_int_floor_le order_less_le)
    with assms have "of_int \<lfloor>x\<rfloor> < (of_int k :: real)" by linarith
    then have "\<lfloor>x\<rfloor> < k" by simp
    then show ?thesis by (simp add: round_half_even_def Let_def)
  qed
qed





















































section \<open>Effects of the acquisition evaluator\<close>












section \<open>Rounding to binary64 is monotone\<close>

lemma round_half_even_bounds: "\<lfloor>x\<rfloor> \<le> round_half_even x \<and> round_half_even x \<le> \<lfloor>x\<rfloor> + 1"
  by (simp add: round_half_even_def Let_def)

lemma round_half_even_ge:
  assumes "of_int k \<le> x"
  shows "k \<le> round_half_even x"
proof -
  have "k \<le> \<lfloor>x\<rfloor>" using assms by (simp add: le_floor_iff)
  with round_half_even_bounds[of x] show ?thesis by linarith
qed

lemma round_half_even_mono:
  assumes "x \<le> y"
  shows "round_half_even x \<le> round_half_even y"
proof (cases "\<lfloor>x\<rfloor> = \<lfloor>y\<rfloor>")
  case True
  with assms have "x - of_int \<lfloor>x\<rfloor> \<le> y - of_int \<lfloor>y\<rfloor>" by simp
  with True show ?thesis by (auto simp: round_half_even_def Let_def)
next
  case False
  with assms have "\<lfloor>x\<rfloor> < \<lfloor>y\<rfloor>" by (simp add: floor_mono order_less_le)
  with round_half_even_bounds[of x] round_half_even_bounds[of y] show ?thesis by linarith
qed

lemma powr_shift: "(2::real) ^ n * 2 powr (a - real n) = 2 powr a"
proof -
  have "2 powr (real n) * 2 powr (a - real n) = (2::real) powr a"
    by (simp only: powr_add[symmetric]) simp
  then show ?thesis by (simp add: powr_realpow)
qed

lemma round_binary64_alt:
  "round_binary64 x =
     (if x = 0 then Fin 0
      else if 2 powr 1024 \<le> b64_magnitude x then signed_inf (0 < x)
      else Fin (sgn x * b64_magnitude x))"
  by (simp add: round_binary64_def b64_magnitude_def b64_exponent_def Let_def)

lemma b64_magnitude_minus: "b64_magnitude (- x) = b64_magnitude x"
  by (simp add: b64_magnitude_def b64_exponent_def)

lemma b64_magnitude_nonneg: "0 \<le> b64_magnitude x"
proof -
  have "0 \<le> \<bar>x\<bar> / 2 powr (of_int (b64_exponent x) - 52)" by simp
  then have "0 \<le> round_half_even (\<bar>x\<bar> / 2 powr (of_int (b64_exponent x) - 52))"
    using round_half_even_ge[of 0] by simp
  then show ?thesis by (simp add: b64_magnitude_def)
qed

lemma b64_magnitude_mono:
  assumes "0 < x" and "x \<le> y"
  shows "b64_magnitude x \<le> b64_magnitude y"
proof -
  let ?ex = "b64_exponent x" and ?ey = "b64_exponent y"
  let ?ux = "(2::real) powr (of_int ?ex - 52)" and ?uy = "(2::real) powr (of_int ?ey - 52)"
  have ypos: "0 < y" using assms by simp
  have "log 2 x \<le> log 2 y" using assms by simp
  then have "\<lfloor>log 2 x\<rfloor> \<le> \<lfloor>log 2 y\<rfloor>" by (rule floor_mono)
  then have le: "?ex \<le> ?ey" using assms ypos by (simp add: b64_exponent_def)
  show ?thesis
  proof (cases "?ex = ?ey")
    case True
    have "x / ?ux \<le> y / ?ux" using assms by (simp add: divide_right_mono)
    then have "round_half_even (x / ?ux) \<le> round_half_even (y / ?ux)"
      by (rule round_half_even_mono)
    then have "(of_int (round_half_even (x / ?ux)) :: real) \<le> of_int (round_half_even (y / ?ux))"
      by simp
    then have "of_int (round_half_even (x / ?ux)) * ?ux \<le> of_int (round_half_even (y / ?ux)) * ?ux"
      by (intro mult_right_mono) simp_all
    with True assms ypos show ?thesis by (simp add: b64_magnitude_def)
  next
    case False
    with le have lt: "?ex + 1 \<le> ?ey" by simp
    then have "- 1022 < ?ey" by (simp add: b64_exponent_def)
    then have ey: "?ey = \<lfloor>log 2 y\<rfloor>" using ypos by (simp add: b64_exponent_def max_def split: if_splits)
    have "of_int ?ey \<le> log 2 y" unfolding ey by simp
    then have ylow: "2 powr (of_int ?ey) \<le> y"
      using ypos by (simp add: le_log_iff)
    have sy: "2 ^ 52 * ?uy = 2 powr (of_int ?ey)"
      using powr_shift[of 52 "of_int ?ey"] by simp
    then have "of_int (2 ^ 52) \<le> y / ?uy"
      using ylow by (simp add: pos_le_divide_eq)
    then have "2 ^ 52 \<le> round_half_even (y / ?uy)" by (rule round_half_even_ge)
    then have my: "(2 ^ 52 :: real) \<le> of_int (round_half_even (y / ?uy))"
      by (metis of_int_le_iff of_int_numeral of_int_power)
    have "2 powr (of_int ?ey) = 2 ^ 52 * ?uy" by (simp only: sy)
    also have "\<dots> \<le> of_int (round_half_even (y / ?uy)) * ?uy"
      by (rule mult_right_mono[OF my]) simp
    also have "\<dots> = b64_magnitude y"
      using ypos by (simp add: b64_magnitude_def)
    finally have ymag: "2 powr (of_int ?ey) \<le> b64_magnitude y" .
    have "\<lfloor>log 2 x\<rfloor> \<le> ?ex" using assms by (simp add: b64_exponent_def)
    then have "log 2 x < of_int ?ex + 1" by linarith
    then have xup: "x < 2 powr (of_int ?ex + 1)"
      using assms(1) by (simp add: log_less_iff)
    have sx: "2 ^ 53 * ?ux = 2 powr (of_int ?ex + 1)"
      using powr_shift[of 53 "of_int ?ex + 1"] by simp
    then have "x / ?ux \<le> of_int (2 ^ 53)"
      using xup by (simp add: pos_divide_le_eq)
    then have "round_half_even (x / ?ux) \<le> 2 ^ 53" by (rule round_half_even_le)
    then have mx: "(of_int (round_half_even (x / ?ux)) :: real) \<le> 2 ^ 53"
      by (metis of_int_le_iff of_int_numeral of_int_power)
    have "b64_magnitude x = of_int (round_half_even (x / ?ux)) * ?ux"
      using assms(1) by (simp add: b64_magnitude_def)
    also have "\<dots> \<le> 2 ^ 53 * ?ux"
      by (rule mult_right_mono[OF mx]) simp
    also have "\<dots> = 2 powr (of_int ?ex + 1)" by (simp only: sx)
    finally have xmag: "b64_magnitude x \<le> 2 powr (of_int ?ex + 1)" .
    have "real_of_int ?ex + 1 \<le> real_of_int ?ey" using lt by linarith
    then have "2 powr (of_int ?ex + 1) \<le> (2::real) powr (of_int ?ey)"
      by (intro powr_mono) simp_all
    with xmag ymag show ?thesis by linarith
  qed
qed

lemma round_binary64_monotone: "rnd_monotone round_binary64"
  unfolding rnd_monotone_def
proof (intro allI impI)
  fix x y :: real
  assume xy: "x \<le> y"
  consider "x = 0" | "y = 0" "x < 0" | "0 < x" | "x < 0" "0 < y" | "x < 0" "y < 0"
    by linarith
  then show "fl_le (round_binary64 x) (round_binary64 y)"
  proof cases
    case 1
    with xy b64_magnitude_nonneg[of y] show ?thesis
      by (auto simp: round_binary64_alt signed_inf_def sgn_if)
  next
    case 2
    with b64_magnitude_nonneg[of x] show ?thesis
      by (auto simp: round_binary64_alt signed_inf_def sgn_if)
  next
    case 3
    with xy b64_magnitude_mono[of x y] show ?thesis
      by (auto simp: round_binary64_alt signed_inf_def sgn_if)
  next
    case 4
    with b64_magnitude_nonneg[of x] b64_magnitude_nonneg[of y] show ?thesis
      by (auto simp: round_binary64_alt signed_inf_def sgn_if)
  next
    case 5
    with xy b64_magnitude_mono[of "- y" "- x"] show ?thesis
      by (auto simp: round_binary64_alt signed_inf_def sgn_if b64_magnitude_minus)
  qed
qed

lemma round_binary64_zero: "round_binary64 0 = Fin 0"
  by (simp add: round_binary64_def)

section \<open>The acquisition evaluator under binary64 rounding\<close>

text \<open>
  Rounding to binary64 is monotone and keeps 0, so the statements about the scores hold
  for the arithmetic of the doubles; the runs below use it.
\<close>

theorem ucb_monotone_in_sigma_witness:
  "rnd_monotone (rnd binary64_lib) \<and> (0::real) \<le> 2
   \<and> list_all is_fin [Fin 1, Fin 3] \<and> list_all is_fin [Fin 0, Fin 1] \<and> list_all is_fin [Fin 1, Fin 1]
   \<and> list_all2 fl_le [Fin 0, Fin 1] [Fin 1, Fin 1] \<and> length [Fin 1, Fin 3] = length [Fin 0, Fin 1]
   \<and> (\<exists>a1 a2.
           fst (compute_acquisition binary64_lib ''UCB'' [Fin 1, Fin 3] [Fin 0, Fin 1] [] (Fin 2) (Fin 0) (0::nat)) = Inr a1
         \<and> fst (compute_acquisition binary64_lib ''UCB'' [Fin 1, Fin 3] [Fin 1, Fin 1] [] (Fin 2) (Fin 0) (0::nat)) = Inr a2
         \<and> list_all2 fl_le a1 a2)"
proof -
  have h: "rnd_monotone (rnd binary64_lib)" by (simp add: binary64_lib_def round_binary64_monotone)
  show ?thesis
    using h ucb_monotone_in_sigma[OF h, of 2 "[Fin 1, Fin 3]" "[Fin 0, Fin 1]" "[Fin 1, Fin 1]" "[]" "Fin 0" 0]
    by (simp add: is_fin_def)
qed

theorem probability_of_improvement_unguarded_witness:
  "rnd binary64_lib 0 = Fin 0 \<and>
   fst (compute_acquisition binary64_lib ''Probability of Improvement'' [Fin 1] [Fin 0] [Fin 1]
                (Fin 2) (Fin 0) (0::nat)) = Inr [NaN]"
proof -
  have h: "rnd binary64_lib 0 = Fin 0" by (simp add: binary64_lib_def round_binary64_zero)
  show ?thesis
    using h probability_of_improvement_unguarded[OF h, of 1 "Fin 2" 0] by simp
qed

end
